theory Spec2Isabelle
  imports Main "HOL-Library.Sublist" "HOL-Library.AList" "HOL-Library.Word"
begin

unbundle bit_operations_syntax

section \<open>Python string primitives used by fstab.py\<close>

text \<open>
  Strings are byte strings (\<open>char list\<close>), as the lines of a file read by
  Python 2 are. \<open>str.strip()\<close> and the regular expression class \<open>\s\<close> use the
  same whitespace set on them: space, tab, newline, vertical tab, form feed
  and carriage return. \<open>\S\<close> is its complement and \<open>\d\<close> is the set of the ten
  decimal digits.
\<close>

definition is_space :: "char \<Rightarrow> bool" where
  "is_space c = (c \<in> set [CHR 0x20, CHR 0x09, CHR 0x0A, CHR 0x0B, CHR 0x0C, CHR 0x0D])"

definition non_space :: "char \<Rightarrow> bool" where
  "non_space c = (\<not> is_space c)"

definition is_digit :: "char \<Rightarrow> bool" where
  "is_digit c = (c \<in> set ''0123456789'')"

text \<open>\<open>s.strip()\<close>: drop leading and trailing whitespace.\<close>

definition strip :: "string \<Rightarrow> string" where
  "strip s = rev (dropWhile is_space (rev (dropWhile is_space s)))"

text \<open>\<open>s.startswith("#")\<close>.\<close>

definition startswith_hash :: "string \<Rightarrow> bool" where
  "startswith_hash s = (case s of [] \<Rightarrow> False | c # _ \<Rightarrow> c = CHR ''#'')"

text \<open>\<open>sep.join(xs)\<close>.\<close>

fun join :: "string \<Rightarrow> string list \<Rightarrow> string" where
  "join sep [] = []"
| "join sep [x] = x"
| "join sep (x # y # ys) = x @ sep @ join sep (y # ys)"

text \<open>
  \<open>s.split(",")\<close>: split at every comma; the result always has at least one
  element (the empty string splits into one empty field).
\<close>

fun split_comma :: "string \<Rightarrow> string list" where
  "split_comma [] = [[]]"
| "split_comma (c # cs) =
     (if c = CHR '','' then [] # split_comma cs
      else (case split_comma cs of
              [] \<Rightarrow> [[c]]
            | w # ws \<Rightarrow> (c # w) # ws))"

text \<open>\<open>str(n)\<close> for an integer: decimal digits, no padding, a minus sign when negative.\<close>

definition digit_char :: "nat \<Rightarrow> char" where
  "digit_char d = ''0123456789'' ! (d mod 10)"

fun str_nat :: "nat \<Rightarrow> string" where
  "str_nat n = (if n < 10 then [digit_char n] else str_nat (n div 10) @ [digit_char (n mod 10)])"

declare str_nat.simps [simp del]

definition str_int :: "int \<Rightarrow> string" where
  "str_int i = (if i < 0 then CHR ''-'' # str_nat (nat (- i)) else str_nat (nat i))"

section \<open>The regular expression of \<open>Line.set_raw\<close>\<close>

text \<open>
  The pattern is a sequence of thirteen named groups, each a greedy repetition
  (\<open>*\<close> or \<open>+\<close>) of one character class, between the anchors \<open>^\<close> and \<open>$\<close>.
  \<open>re.match\<close> is a backtracking matcher: a greedy repetition first takes the
  longest run of its class, and gives back one character at a time, down to its
  minimum, while the remainder of the pattern fails. The match returned is the
  first one found in that order. Without \<open>re.MULTILINE\<close>, \<open>$\<close> succeeds at the end
  of the string and also just before a newline that is the last character.
\<close>

datatype attr =
  Ws1 | Device | Ws2 | Directory | Ws3 | Fstype | Ws4 | Options | Ws5 | Dump | Ws6 | Fsck | Ws7
  | Raw

datatype cls = Space | NonSpace | Digit

datatype quant = Star | Plus

fun in_cls :: "cls \<Rightarrow> char \<Rightarrow> bool" where
  "in_cls Space c = is_space c"
| "in_cls NonSpace c = non_space c"
| "in_cls Digit c = is_digit c"

fun min_rep :: "quant \<Rightarrow> nat" where
  "min_rep Star = 0"
| "min_rep Plus = 1"

text \<open>The class attribute \<open>Line.attrs\<close>.\<close>

definition attrs :: "attr list" where
  "attrs = [Ws1, Device, Ws2, Directory, Ws3, Fstype, Ws4, Options, Ws5, Dump, Ws6, Fsck, Ws7]"

text \<open>The pattern \<open>pat\<close> built in \<open>set_raw\<close>, group by group.\<close>

definition pat :: "(attr \<times> cls \<times> quant) list" where
  "pat = [(Ws1, Space, Star),
          (Device, NonSpace, Star),
          (Ws2, Space, Plus),
          (Directory, NonSpace, Plus),
          (Ws3, Space, Plus),
          (Fstype, NonSpace, Plus),
          (Ws4, Space, Plus),
          (Options, NonSpace, Plus),
          (Ws5, Space, Plus),
          (Dump, Digit, Plus),
          (Ws6, Space, Plus),
          (Fsck, Digit, Plus),
          (Ws7, Space, Star)]"

text \<open>The anchor \<open>$\<close>, applied to what is left of the subject.\<close>

definition at_dollar :: "string \<Rightarrow> bool" where
  "at_dollar s = (s = [] \<or> s = [CHR 0x0A])"

text \<open>
  \<open>backtrack lo d f\<close> tries the repetition counts \<open>lo + d\<close>, \<open>lo + d - 1\<close>, ..., \<open>lo\<close>
  in this order and returns the first success of \<open>f\<close>.
\<close>

primrec backtrack :: "nat \<Rightarrow> nat \<Rightarrow> (nat \<Rightarrow> 'a option) \<Rightarrow> 'a option" where
  "backtrack lo 0 f = f lo"
| "backtrack lo (Suc d) f =
     (case f (lo + Suc d) of Some r \<Rightarrow> Some r | None \<Rightarrow> backtrack lo d f)"

text \<open>
  \<open>re_match p s\<close> matches the remaining groups \<open>p\<close> against the remaining
  subject \<open>s\<close>; on success it returns the captured groups in order.
\<close>

fun re_match :: "(attr \<times> cls \<times> quant) list \<Rightarrow> string \<Rightarrow> (attr \<times> string) list option" where
  "re_match [] s = (if at_dollar s then Some [] else None)"
| "re_match ((a, c, q) # p) s =
     (let hi = length (takeWhile (in_cls c) s) in
      if hi < min_rep q then None
      else backtrack (min_rep q) (hi - min_rep q)
             (\<lambda>k. case re_match p (drop k s) of
                     None \<Rightarrow> None
                   | Some gs \<Rightarrow> Some ((a, take k s) # gs)))"

section \<open>The class \<open>Line\<close>\<close>

text \<open>
  A \<open>Line\<close> object holds the dictionary \<open>self.dict\<close>, whose values are strings or
  Python's \<open>None\<close> (\<open>Some None\<close> is a key bound to \<open>None\<close>; \<open>None\<close> is an absent
  key). \<open>inst\<close> holds the plain instance attributes that \<open>object.__setattr__\<close>
  creates for a name that is no property.
\<close>

record line =
  dict :: "attr \<rightharpoonup> string option"
  inst :: "attr \<rightharpoonup> string"

datatype syscall =
  SysMkstemp | SysClose | SysOpen | SysWrite nat | SysFlush | SysStat | SysChmod
  | SysRemove | SysLink | SysRename

datatype error =
  AttributeError attr
  | NoFilesystemSpec attr
  | KeyError attr
  | TypeError
  | FileNotFoundError string
  | FileExistsError string
  | OSError syscall

text \<open>\<open>self.dict.update((attr, f(attr)) for attr in self.attrs)\<close>.\<close>

fun update_items :: "(attr \<times> string option) list \<Rightarrow> (attr \<rightharpoonup> string option) \<Rightarrow> (attr \<rightharpoonup> string option)" where
  "update_items [] d = d"
| "update_items ((k, v) # kvs) d = update_items kvs (d(k \<mapsto> v))"

text \<open>\<open>match.group(attr)\<close> on a successful match.\<close>

definition group :: "(attr \<times> string) list \<Rightarrow> attr \<Rightarrow> string option" where
  "group gs a = map_of gs a"

text \<open>
  \<open>set_raw\<close>. \<open>raw_match\<close> is the value of the local variable \<open>match\<close> when
  the dictionary is filled: the match object, or a false value (\<open>False\<close> when
  the line is blank or a comment, \<open>None\<close> when the pattern fails).
\<close>

definition raw_match :: "string \<Rightarrow> (attr \<times> string) list option" where
  "raw_match raw =
     (if strip raw \<noteq> [] \<and> \<not> startswith_hash (strip raw) then re_match pat raw else None)"

definition set_raw :: "string \<Rightarrow> line \<Rightarrow> line" where
  "set_raw raw l =
     (let d1 = (case raw_match raw of
                  Some gs \<Rightarrow> update_items (map (\<lambda>a. (a, group gs a)) attrs) (dict l)
                | None \<Rightarrow> update_items (map (\<lambda>a. (a, None)) attrs) (dict l))
      in l\<lparr>dict := d1(Raw \<mapsto> Some raw)\<rparr>)"

text \<open>
  \<open>Line(raw)\<close>: \<open>__init__\<close> binds \<open>self.dict = {}\<close> and then assigns \<open>self.raw\<close>,
  which reaches the property setter \<open>set_raw\<close> because \<open>raw\<close> is not yet a key.
\<close>

definition Line :: "string \<Rightarrow> line" where
  "Line raw = set_raw raw \<lparr>dict = Map.empty, inst = Map.empty\<rparr>"

text \<open>
  Reading a plain attribute \<open>name\<close> (one that is no property): an instance
  attribute wins; otherwise \<open>__getattr__\<close> looks the name up in \<open>self.dict\<close> and
  raises \<open>AttributeError\<close> when it is absent. The result is a string or \<open>None\<close>.
\<close>

definition getattr :: "attr \<Rightarrow> line \<Rightarrow> error + string option" where
  "getattr name l =
     (case inst l name of
        Some v \<Rightarrow> Inr (Some v)
      | None \<Rightarrow> (case dict l name of
                   Some v \<Rightarrow> Inr v
                 | None \<Rightarrow> Inl (AttributeError name)))"

definition has_filesystem :: "line \<Rightarrow> error + bool" where
  "has_filesystem l =
     (case getattr Device l of Inl e \<Rightarrow> Inl e | Inr v \<Rightarrow> Inr (v \<noteq> None))"

text \<open>
  \<open>"".join(self.dict[attr] for attr in self.attrs)\<close>: a missing key raises
  \<open>KeyError\<close>, a \<open>None\<close> value makes \<open>join\<close> raise \<open>TypeError\<close>.
\<close>

fun join_fields :: "attr list \<Rightarrow> (attr \<rightharpoonup> string option) \<Rightarrow> error + string" where
  "join_fields [] d = Inr []"
| "join_fields (a # as) d =
     (case d a of
        None \<Rightarrow> Inl (KeyError a)
      | Some None \<Rightarrow> (case join_fields as d of Inl e \<Rightarrow> Inl e | Inr _ \<Rightarrow> Inl TypeError)
      | Some (Some v) \<Rightarrow> (case join_fields as d of Inl e \<Rightarrow> Inl e | Inr r \<Rightarrow> Inr (v @ r)))"

definition get_raw :: "line \<Rightarrow> error + string option" where
  "get_raw l =
     (case has_filesystem l of
        Inl e \<Rightarrow> Inl e
      | Inr True \<Rightarrow> (case join_fields attrs (dict l) of Inl e \<Rightarrow> Inl e | Inr r \<Rightarrow> Inr (Some r))
      | Inr False \<Rightarrow> (case dict l Raw of
                        None \<Rightarrow> Inl (KeyError Raw)
                      | Some v \<Rightarrow> Inr v))"

text \<open>
  \<open>__setattr__\<close>. The tuple \<open>forbidden\<close> also names \<open>"dict"\<close>, the dictionary
  itself, which is no member of \<open>attr\<close>.
\<close>

definition forbidden :: "attr list" where
  "forbidden = [Dump, Fsck, Options]"

text \<open>The property setters.\<close>

definition set_dump :: "int \<Rightarrow> line \<Rightarrow> line" where
  "set_dump v l = l\<lparr>dict := (dict l)(Dump \<mapsto> Some (str_int v))\<rparr>"

definition set_fsck :: "int \<Rightarrow> line \<Rightarrow> line" where
  "set_fsck v l = l\<lparr>dict := (dict l)(Fsck \<mapsto> Some (str_int v))\<rparr>"

definition set_options :: "string list \<Rightarrow> line \<Rightarrow> line" where
  "set_options xs l = l\<lparr>dict := (dict l)(Options \<mapsto> Some (join '','' xs))\<rparr>"

text \<open>
  \<open>get_options\<close>: \<open>self.dict["options"].split(",")\<close>; a missing key raises
  \<open>KeyError\<close>, and \<open>None\<close> has no \<open>split\<close>.
\<close>

definition get_options :: "line \<Rightarrow> error + string list" where
  "get_options l =
     (case dict l Options of
        None \<Rightarrow> Inl (KeyError Options)
      | Some None \<Rightarrow> Inl (AttributeError Options)
      | Some (Some v) \<Rightarrow> Inr (split_comma v))"

text \<open>
  \<open>line.name = value\<close> for a string \<open>value\<close>. In the \<open>else\<close> branch
  \<open>object.__setattr__\<close> runs the property setter when \<open>name\<close> is a property
  (\<open>str\<close> of a string is the string, and \<open>",".join\<close> of a string joins its
  characters), and creates an instance attribute otherwise.
\<close>

definition setattr :: "attr \<Rightarrow> string \<Rightarrow> line \<Rightarrow> error + line" where
  "setattr name v l =
     (if name \<notin> set forbidden \<and> name \<in> dom (dict l) then
        (if dict l name = Some None then Inl (NoFilesystemSpec name)
         else Inr (l\<lparr>dict := (dict l)(name \<mapsto> Some v)\<rparr>))
      else if name = Raw then Inr (set_raw v l)
      else if name = Dump then Inr (l\<lparr>dict := (dict l)(Dump \<mapsto> Some v)\<rparr>)
      else if name = Fsck then Inr (l\<lparr>dict := (dict l)(Fsck \<mapsto> Some v)\<rparr>)
      else if name = Options then Inr (set_options (map (\<lambda>c. [c]) v) l)
      else Inr (l\<lparr>inst := (inst l)(name \<mapsto> v)\<rparr>))"

text \<open>
  \<open>line.dump = v\<close>, \<open>line.fsck = v\<close> for an integer and \<open>line.options = xs\<close> for
  a list: the three names are in \<open>forbidden\<close>, so \<open>__setattr__\<close> takes its
  \<open>else\<close> branch and \<open>object.__setattr__\<close> runs the property setter.
\<close>

definition assign_dump :: "int \<Rightarrow> line \<Rightarrow> error + line" where
  "assign_dump v l = Inr (set_dump v l)"

definition assign_fsck :: "int \<Rightarrow> line \<Rightarrow> error + line" where
  "assign_fsck v l = Inr (set_fsck v l)"

definition assign_options :: "string list \<Rightarrow> line \<Rightarrow> error + line" where
  "assign_options xs l = Inr (set_options xs l)"

section \<open>The class \<open>Fstab\<close>: the table\<close>

record fstab =
  fstab_file :: string
  lines :: "line list"

text \<open>\<open>get_entry\<close>: the first line whose \<open>directory\<close> equals the argument, else \<open>None\<close>.\<close>

fun get_entry_loop :: "string \<Rightarrow> line list \<Rightarrow> error + line option" where
  "get_entry_loop directory [] = Inr None"
| "get_entry_loop directory (l # ls) =
     (case getattr Directory l of
        Inl e \<Rightarrow> Inl e
      | Inr v \<Rightarrow> if v = Some directory then Inr (Some l) else get_entry_loop directory ls)"

definition get_entry :: "string \<Rightarrow> fstab \<Rightarrow> error + line option" where
  "get_entry directory self = get_entry_loop directory (lines self)"

text \<open>
  \<open>delete_entry\<close>: \<open>for i, line in enumerate(self.lines)\<close> with \<open>del self.lines[i]\<close>
  in the body and no \<open>break\<close>. The list iterator keeps an index into the list
  being mutated; it stops when the index reaches the current length, and
  \<open>enumerate\<close> counts in step with it.
\<close>

function delete_loop :: "string \<Rightarrow> nat \<Rightarrow> line list \<Rightarrow> error + line list" where
  "delete_loop directory i ls =
     (if i < length ls then
        (case getattr Directory (ls ! i) of
           Inl e \<Rightarrow> Inl e
         | Inr v \<Rightarrow>
             if v = Some directory
             then delete_loop directory (Suc i) (take i ls @ drop (Suc i) ls)
             else delete_loop directory (Suc i) ls)
      else Inr ls)"
  by pat_completeness auto
termination
  by (relation "measure (\<lambda>(directory, i, ls). length ls - i)") auto

definition delete_entry :: "string \<Rightarrow> fstab \<Rightarrow> error + fstab" where
  "delete_entry directory self =
     (case delete_loop directory 0 (lines self) of
        Inl e \<Rightarrow> Inl e
      | Inr ls \<Rightarrow> Inr (self\<lparr>lines := ls\<rparr>))"

text \<open>\<open>"{} {} {} {} {} {}\n".format(device, directory, fstype, options, dump, fsck)\<close>.\<close>

definition format_entry :: "string \<Rightarrow> string \<Rightarrow> string \<Rightarrow> string \<Rightarrow> int \<Rightarrow> int \<Rightarrow> string" where
  "format_entry device directory fstype options dump fsck =
     device @ '' '' @ directory @ '' '' @ fstype @ '' '' @ options @ '' '' @
     str_int dump @ '' '' @ str_int fsck @ [CHR 0x0A]"

text \<open>\<open>add_entry\<close>; a \<open>Line\<close> object is always true in a condition.\<close>

definition add_entry ::
  "string \<Rightarrow> string \<Rightarrow> string \<Rightarrow> string \<Rightarrow> int \<Rightarrow> int \<Rightarrow> fstab \<Rightarrow> error + fstab" where
  "add_entry device directory fstype options dump fsck self =
     (case get_entry directory self of
        Inl e \<Rightarrow> Inl e
      | Inr found \<Rightarrow>
          (case (if found \<noteq> None then delete_entry directory self else Inr self) of
             Inl e \<Rightarrow> Inl e
           | Inr self1 \<Rightarrow>
               Inr (self1\<lparr>lines := lines self1 @
                      [Line (format_entry device directory fstype options dump fsck)]\<rparr>)))"

section \<open>The file system as \<open>Fstab.write\<close> uses it\<close>

text \<open>
  The calls into \<open>os\<close>, \<open>os.path\<close> and \<open>tempfile\<close> are modelled by their POSIX
  contracts on an explicit state: directory entries bind path names to inode
  numbers (a hard link is a second name for the same inode), and an inode
  holds the content and the \<open>st_mode\<close> word (file type and permission bits).
  Path names are compared as strings. The environment supplies what the
  program cannot decide: the candidate names of \<open>mkstemp\<close>, the \<open>umask\<close>, and the
  system calls that the operating system refuses.
\<close>

record inode =
  content :: string
  mode :: "32 word"

record filesystem =
  names :: "(string \<times> nat) list"
  inodes :: "nat \<Rightarrow> inode"

record env =
  rnds :: "string list"
  umask :: "32 word"
  faults :: "syscall \<Rightarrow> bool"

type_synonym 'a io = "filesystem \<Rightarrow> (error + 'a) \<times> filesystem"

definition return :: "'a \<Rightarrow> 'a io" where
  "return x fs = (Inr x, fs)"

definition raise :: "error \<Rightarrow> 'a io" where
  "raise e fs = (Inl e, fs)"

definition bind :: "'a io \<Rightarrow> ('a \<Rightarrow> 'b io) \<Rightarrow> 'b io" where
  "bind m f fs = (case m fs of (Inl e, fs') \<Rightarrow> (Inl e, fs') | (Inr x, fs') \<Rightarrow> f x fs')"

text \<open>A system call that the environment refuses raises \<open>OSError\<close> and changes nothing.\<close>

definition sys :: "env \<Rightarrow> syscall \<Rightarrow> 'a io \<Rightarrow> 'a io" where
  "sys E c m = (if faults E c then raise (OSError c) else m)"

definition lookup :: "filesystem \<Rightarrow> string \<Rightarrow> nat option" where
  "lookup fs p = map_of (names fs) p"

definition fresh_ino :: "filesystem \<Rightarrow> nat" where
  "fresh_ino fs = Suc (fold max (map snd (names fs)) 0)"

text \<open>Octal \<open>07777\<close>, \<open>0100000\<close>; below, \<open>0x180\<close> is octal \<open>0600\<close> and \<open>0x1B6\<close> is octal \<open>0666\<close>.\<close>

definition perm_mask :: "32 word" where
  "perm_mask = 0xFFF"

definition S_IFREG :: "32 word" where
  "S_IFREG = 0x8000"

text \<open>\<open>os.path.basename\<close>, \<open>os.path.dirname\<close> and \<open>os.path.join\<close> of \<open>posixpath\<close>.\<close>

definition is_slash :: "char \<Rightarrow> bool" where
  "is_slash c = (c = CHR ''/'')"

definition basename :: "string \<Rightarrow> string" where
  "basename p = rev (takeWhile (\<lambda>c. \<not> is_slash c) (rev p))"

definition dirname :: "string \<Rightarrow> string" where
  "dirname p =
     (let head = rev (dropWhile (\<lambda>c. \<not> is_slash c) (rev p)) in
      if head \<noteq> [] \<and> \<not> list_all is_slash head
      then rev (dropWhile is_slash (rev head))
      else head)"

definition path_join :: "string \<Rightarrow> string \<Rightarrow> string" where
  "path_join a b =
     (if b \<noteq> [] \<and> is_slash (hd b) then b
      else if a = [] \<or> is_slash (last a) then a @ b
      else a @ ''/'' @ b)"

text \<open>
  \<open>tempfile.mkstemp(dir=d, prefix=pre)\<close>: the first candidate name that does
  not exist yet is created exclusively, empty, with mode \<open>0600\<close>; when every
  candidate exists, \<open>FileExistsError\<close> is raised. The descriptor is closed by
  the caller at once, so only the name is returned.
\<close>

definition mkstemp :: "env \<Rightarrow> string \<Rightarrow> string \<Rightarrow> string io" where
  "mkstemp E d pre =
     sys E SysMkstemp (\<lambda>fs.
       case find (\<lambda>file. lookup fs file = None) (map (\<lambda>r. path_join d (pre @ r)) (rnds E)) of
         None \<Rightarrow> (Inl (FileExistsError d), fs)
       | Some file \<Rightarrow>
           (Inr file,
            fs\<lparr>names := AList.update file (fresh_ino fs) (names fs),
               inodes := (inodes fs)(fresh_ino fs := \<lparr>content = [], mode = S_IFREG OR 0x180\<rparr>)\<rparr>))"

definition os_close :: "env \<Rightarrow> unit io" where
  "os_close E = sys E SysClose (return ())"

text \<open>
  \<open>open(name, "w")\<close> truncates an existing file and creates a missing one with
  mode \<open>0666\<close> less the \<open>umask\<close>; the file object is the inode it opened.
\<close>

definition open_w :: "env \<Rightarrow> string \<Rightarrow> nat io" where
  "open_w E name =
     sys E SysOpen (\<lambda>fs.
       case lookup fs name of
         Some i \<Rightarrow> (Inr i, fs\<lparr>inodes := (inodes fs)(i := (inodes fs i)\<lparr>content := []\<rparr>)\<rparr>)
       | None \<Rightarrow>
           (Inr (fresh_ino fs),
            fs\<lparr>names := AList.update name (fresh_ino fs) (names fs),
               inodes := (inodes fs)(fresh_ino fs :=
                           \<lparr>content = [], mode = S_IFREG OR (0x1B6 AND NOT (umask E))\<rparr>)\<rparr>))"

text \<open>\<open>f.write(s)\<close>, for the \<open>k\<close>-th line written.\<close>

definition f_write :: "env \<Rightarrow> nat \<Rightarrow> nat \<Rightarrow> string \<Rightarrow> unit io" where
  "f_write E k i s =
     sys E (SysWrite k) (\<lambda>fs.
       (Inr (), fs\<lparr>inodes := (inodes fs)(i := (inodes fs i)\<lparr>content := content (inodes fs i) @ s\<rparr>)\<rparr>))"

text \<open>Leaving the \<open>with\<close> block closes the file.\<close>

definition f_close :: "env \<Rightarrow> unit io" where
  "f_close E = sys E SysFlush (return ())"

text \<open>\<open>os.stat(filename).st_mode\<close>.\<close>

definition get_perms :: "env \<Rightarrow> string \<Rightarrow> 32 word io" where
  "get_perms E filename =
     sys E SysStat (\<lambda>fs.
       case lookup fs filename of
         None \<Rightarrow> (Inl (FileNotFoundError filename), fs)
       | Some i \<Rightarrow> (Inr (mode (inodes fs i)), fs))"

text \<open>\<open>os.chmod(filename, mode)\<close> replaces the permission bits and keeps the file type.\<close>

definition chmod_file :: "env \<Rightarrow> string \<Rightarrow> 32 word \<Rightarrow> unit io" where
  "chmod_file E filename m =
     sys E SysChmod (\<lambda>fs.
       case lookup fs filename of
         None \<Rightarrow> (Inl (FileNotFoundError filename), fs)
       | Some i \<Rightarrow>
           (Inr (), fs\<lparr>inodes := (inodes fs)(i := (inodes fs i)
              \<lparr>mode := (mode (inodes fs i) AND NOT perm_mask) OR (m AND perm_mask)\<rparr>)\<rparr>))"

definition os_path_exists :: "string \<Rightarrow> bool io" where
  "os_path_exists name fs = (Inr (lookup fs name \<noteq> None), fs)"

definition os_remove :: "env \<Rightarrow> string \<Rightarrow> unit io" where
  "os_remove E name =
     sys E SysRemove (\<lambda>fs.
       case lookup fs name of
         None \<Rightarrow> (Inl (FileNotFoundError name), fs)
       | Some i \<Rightarrow> (Inr (), fs\<lparr>names := AList.delete name (names fs)\<rparr>))"

definition os_link :: "env \<Rightarrow> string \<Rightarrow> string \<Rightarrow> unit io" where
  "os_link E oldname newname =
     sys E SysLink (\<lambda>fs.
       case lookup fs oldname of
         None \<Rightarrow> (Inl (FileNotFoundError oldname), fs)
       | Some i \<Rightarrow>
           (case lookup fs newname of
              Some j \<Rightarrow> (Inl (FileExistsError newname), fs)
            | None \<Rightarrow> (Inr (), fs\<lparr>names := AList.update newname i (names fs)\<rparr>)))"

definition link_file :: "env \<Rightarrow> string \<Rightarrow> string \<Rightarrow> unit io" where
  "link_file E oldname newname =
     bind (os_path_exists newname) (\<lambda>ex.
     bind (if ex then os_remove E newname else return ()) (\<lambda>_.
     os_link E oldname newname))"

text \<open>
  \<open>os.rename(oldname, newname)\<close>: one atomic step; when both names already
  denote the same inode it does nothing.
\<close>

definition rename_file :: "env \<Rightarrow> string \<Rightarrow> string \<Rightarrow> unit io" where
  "rename_file E oldname newname =
     sys E SysRename (\<lambda>fs.
       case lookup fs oldname of
         None \<Rightarrow> (Inl (FileNotFoundError oldname), fs)
       | Some i \<Rightarrow>
           if lookup fs newname = Some i then (Inr (), fs)
           else (Inr (), fs\<lparr>names := AList.update newname i (AList.delete oldname (names fs))\<rparr>))"

text \<open>\<open>for line in self.lines: f.write(line.raw)\<close>; writing \<open>None\<close> raises \<open>TypeError\<close>.\<close>

fun write_lines :: "env \<Rightarrow> nat \<Rightarrow> nat \<Rightarrow> line list \<Rightarrow> unit io" where
  "write_lines E k i [] = return ()"
| "write_lines E k i (l # ls) =
     (case get_raw l of
        Inl e \<Rightarrow> raise e
      | Inr None \<Rightarrow> raise TypeError
      | Inr (Some s) \<Rightarrow> bind (f_write E k i s) (\<lambda>_. write_lines E (Suc k) i ls))"

text \<open>
  \<open>Fstab.write\<close> (the name \<open>write\<close> is reserved). The \<open>with\<close> statement
  closes the file whether or not its body raised; an exception of the body
  propagates unless closing raises one itself. \<open>write_target\<close> is the value of \<open>fn\<close> after the first
  two lines: an absent or empty argument selects \<open>self.fstab_file\<close>.
\<close>

definition write_temp :: "env \<Rightarrow> string \<Rightarrow> line list \<Rightarrow> unit io" where
  "write_temp E tempname ls =
     bind (open_w E tempname) (\<lambda>f fs.
       case write_lines E 0 f ls fs of
         (Inl e, fs') \<Rightarrow>
           (case f_close E fs' of
              (Inl e', fs'') \<Rightarrow> (Inl e', fs'')
            | (Inr _, fs'') \<Rightarrow> (Inl e, fs''))
       | (Inr _, fs') \<Rightarrow> f_close E fs')"

definition write_target :: "string option \<Rightarrow> fstab \<Rightarrow> string" where
  "write_target fn_arg self =
     (case fn_arg of None \<Rightarrow> fstab_file self
      | Some f \<Rightarrow> if f = [] then fstab_file self else f)"

definition Fstab_write :: "env \<Rightarrow> string option \<Rightarrow> fstab \<Rightarrow> unit io" where
  "Fstab_write E fn_arg self =
     (let fn = write_target fn_arg self;
          dir = dirname fn;
          prefix = basename fn @ ''.''
      in bind (mkstemp E dir prefix) (\<lambda>tempname.
         bind (os_close E) (\<lambda>_.
         bind (write_temp E tempname (lines self)) (\<lambda>_.
         bind (get_perms E fn) (\<lambda>perms.
         bind (chmod_file E tempname perms) (\<lambda>_.
         bind (link_file E fn (fn @ ''.bak'')) (\<lambda>_.
         rename_file E tempname fn)))))))"

section \<open>Notions used to state the properties of \<open>Fstab.write\<close>\<close>

text \<open>The content and the permission bits of the file that a path names, if any.\<close>

definition read_file :: "filesystem \<Rightarrow> string \<Rightarrow> string option" where
  "read_file fs p = map_option (\<lambda>i. content (inodes fs i)) (lookup fs p)"

definition perm_bits :: "filesystem \<Rightarrow> string \<Rightarrow> 32 word option" where
  "perm_bits fs p = map_option (\<lambda>i. mode (inodes fs i) AND perm_mask) (lookup fs p)"

text \<open>The concatenation of the renderings of all lines, when every line renders.\<close>

fun render_table :: "line list \<Rightarrow> string option" where
  "render_table [] = Some []"
| "render_table (l # ls) =
     (case get_raw l of
        Inr (Some s) \<Rightarrow> map_option (\<lambda>r. s @ r) (render_table ls)
      | _ \<Rightarrow> None)"

text \<open>
  The temporary file that \<open>mkstemp\<close> creates for the target \<open>fn\<close> in the file
  system \<open>fs\<close>, if any. The random part of a candidate name is made of letters,
  digits and underscores, six or eight of them: it contains no slash and is
  not \<open>bak\<close>.
\<close>

definition temp_file :: "env \<Rightarrow> string \<Rightarrow> filesystem \<Rightarrow> string option" where
  "temp_file E fn fs =
     find (\<lambda>file. lookup fs file = None)
       (map (\<lambda>r. path_join (dirname fn) ((basename fn @ ''.'') @ r)) (rnds E))"

definition candidate_ok :: "string \<Rightarrow> bool" where
  "candidate_ok r = (r \<noteq> ''bak'' \<and> list_all (\<lambda>c. \<not> is_slash c) r)"

text \<open>Two states that differ at most in the content of one inode.\<close>

definition same_but_content :: "nat \<Rightarrow> filesystem \<Rightarrow> filesystem \<Rightarrow> bool" where
  "same_but_content i fs fs' =
     (names fs' = names fs \<and> (\<forall>j. j \<noteq> i \<longrightarrow> inodes fs' j = inodes fs j) \<and>
      mode (inodes fs' i) = mode (inodes fs i))"

text \<open>What every step before the rename keeps of the original state.\<close>

definition kept :: "filesystem \<Rightarrow> string \<Rightarrow> string \<Rightarrow> filesystem \<Rightarrow> bool" where
  "kept fs fn tmp s =
     (lookup s fn = lookup fs fn \<and> lookup s tmp = Some (fresh_ino fs) \<and>
      (\<forall>j. j \<noteq> fresh_ino fs \<longrightarrow> inodes s j = inodes fs j))"

section \<open>Notions used to state the table properties\<close>

text \<open>
  The lines of a table are built by \<open>Line\<close>, which binds every key of the
  dictionary. \<open>has_directory\<close> says that reading \<open>line.directory\<close> does not raise;
  \<open>mounted_at d\<close> is the test of \<open>get_entry\<close> and \<open>delete_entry\<close>.
\<close>

definition has_directory :: "line \<Rightarrow> bool" where
  "has_directory l = (inst l Directory \<noteq> None \<or> dict l Directory \<noteq> None)"

definition mounted_at :: "string \<Rightarrow> line \<Rightarrow> bool" where
  "mounted_at directory l = (getattr Directory l = Inr (Some directory))"

text \<open>
  What the loop of \<open>delete_entry\<close> computes: deleting the element under the
  iterator moves the next element into its place, and the iterator steps over it.
  \<open>after_hit\<close> is the part of the result that follows the first deleted line.
\<close>

fun skip_delete :: "('a \<Rightarrow> bool) \<Rightarrow> 'a list \<Rightarrow> 'a list" where
  "skip_delete P [] = []"
| "skip_delete P [x] = (if P x then [] else [x])"
| "skip_delete P (x # y # ys) =
     (if P x then y # skip_delete P ys else x # skip_delete P (y # ys))"

definition after_hit :: "('a \<Rightarrow> bool) \<Rightarrow> 'a list \<Rightarrow> 'a list" where
  "after_hit P xs = (case tl (dropWhile (\<lambda>x. \<not> P x) xs) of [] \<Rightarrow> [] | y # ys \<Rightarrow> y # skip_delete P ys)"

text \<open>A non-empty string without whitespace.\<close>

definition well_formed_field :: "string \<Rightarrow> bool" where
  "well_formed_field x = (x \<noteq> [] \<and> list_all non_space x)"

text \<open>The number of whitespace-separated words of a string (the length of \<open>s.split()\<close>).\<close>

fun words_from :: "bool \<Rightarrow> string \<Rightarrow> nat" where
  "words_from inside [] = 0"
| "words_from inside (c # cs) =
     (if is_space c then words_from False cs
      else (if inside then 0 else 1) + words_from True cs)"

definition word_count :: "string \<Rightarrow> nat" where
  "word_count s = words_from False s"

section \<open>The six-field grammar as the specification words it\<close>

text \<open>
  A line matches the grammar when it is the concatenation
  \<open>ws1 device ws2 mountPoint ws3 fsType ws4 options ws5 dump ws6 fsck ws7\<close> where
  \<open>ws1\<close> and \<open>ws7\<close> are whitespace, possibly empty, \<open>ws2\<close> to \<open>ws6\<close> are non-empty
  whitespace, \<open>device\<close> is free of whitespace and may be empty, \<open>mountPoint\<close>,
  \<open>fsType\<close> and \<open>options\<close> are non-empty and free of whitespace, and \<open>dump\<close> and
  \<open>fsck\<close> are non-empty sequences of decimal digits.
\<close>

definition six_field_grammar :: "string \<Rightarrow> bool" where
  "six_field_grammar raw =
     (\<exists>w1 dev w2 mp w3 ft w4 opts w5 dmp w6 fck w7.
        raw = w1 @ dev @ w2 @ mp @ w3 @ ft @ w4 @ opts @ w5 @ dmp @ w6 @ fck @ w7 \<and>
        list_all is_space w1 \<and>
        list_all non_space dev \<and>
        list_all is_space w2 \<and> w2 \<noteq> [] \<and>
        list_all non_space mp \<and> mp \<noteq> [] \<and>
        list_all is_space w3 \<and> w3 \<noteq> [] \<and>
        list_all non_space ft \<and> ft \<noteq> [] \<and>
        list_all is_space w4 \<and> w4 \<noteq> [] \<and>
        list_all non_space opts \<and> opts \<noteq> [] \<and>
        list_all is_space w5 \<and> w5 \<noteq> [] \<and>
        list_all is_digit dmp \<and> dmp \<noteq> [] \<and>
        list_all is_space w6 \<and> w6 \<noteq> [] \<and>
        list_all is_digit fck \<and> fck \<noteq> [] \<and>
        list_all is_space w7)"

text \<open>A line is blank or a comment when its trimmed text is empty or starts with \<open>#\<close>.\<close>

definition blank_or_comment :: "string \<Rightarrow> bool" where
  "blank_or_comment raw = (strip raw = [] \<or> startswith_hash (strip raw))"

text \<open>
  \<open>splits_as p gs\<close>: the strings \<open>gs\<close> are, group by group, repetitions of the
  classes of the pattern \<open>p\<close> of at least the minimal length.
\<close>

fun splits_as :: "(attr \<times> cls \<times> quant) list \<Rightarrow> string list \<Rightarrow> bool" where
  "splits_as [] [] = True"
| "splits_as ((a, c, q) # p) (g # gs) =
     (list_all (in_cls c) g \<and> min_rep q \<le> length g \<and> splits_as p gs)"
| "splits_as _ _ = False"

section \<open>The backtracking matcher finds a match exactly when one exists\<close>

lemma backtrack_SomeD:
  "backtrack lo d f = Some r \<Longrightarrow>
     \<exists>k. lo \<le> k \<and> k \<le> lo + d \<and> f k = Some r \<and> (\<forall>j. k < j \<and> j \<le> lo + d \<longrightarrow> f j = None)"
proof (induction d)
  case 0
  then show ?case by auto
next
  case (Suc d)
  show ?case
  proof (cases "f (lo + Suc d)")
    case None
    with Suc.prems have "backtrack lo d f = Some r" by simp
    from Suc.IH[OF this] obtain k where k: "lo \<le> k" "k \<le> lo + d" "f k = Some r"
      "\<forall>j. k < j \<and> j \<le> lo + d \<longrightarrow> f j = None" by blast
    have "\<forall>j. k < j \<and> j \<le> lo + Suc d \<longrightarrow> f j = None"
    proof (intro allI impI)
      fix j assume j: "k < j \<and> j \<le> lo + Suc d"
      show "f j = None"
      proof (cases "j = lo + Suc d")
        case True with None show ?thesis by simp
      next
        case False with j k(4) show ?thesis by simp
      qed
    qed
    with k show ?thesis by (intro exI[of _ k]) simp
  next
    case (Some a)
    with Suc.prems have "a = r" by simp
    with Some show ?thesis by (intro exI[of _ "lo + Suc d"]) auto
  qed
qed

lemma backtrack_complete:
  "lo \<le> k \<Longrightarrow> k \<le> lo + d \<Longrightarrow> f k \<noteq> None \<Longrightarrow> backtrack lo d f \<noteq> None"
proof (induction d)
  case 0
  then show ?case by simp
next
  case (Suc d)
  show ?case
  proof (cases "k = lo + Suc d")
    case True
    with Suc.prems show ?thesis by (auto split: option.splits)
  next
    case False
    with Suc.prems have "k \<le> lo + d" by simp
    from Suc.IH[OF Suc.prems(1) this Suc.prems(3)] show ?thesis
      by (auto split: option.splits)
  qed
qed

lemma take_le_takeWhile:
  "k \<le> length (takeWhile P s) \<Longrightarrow> list_all P (take k s) \<and> k \<le> length s"
proof (induction s arbitrary: k)
  case Nil
  then show ?case by simp
next
  case (Cons x s)
  then show ?case by (cases k) (auto split: if_splits)
qed

lemma re_match_sound:
  "re_match p s = Some gs \<Longrightarrow>
     map fst gs = map fst p \<and> splits_as p (map snd gs) \<and>
     (\<exists>r. s = concat (map snd gs) @ r \<and> at_dollar r)"
proof (induction p arbitrary: s gs)
  case Nil
  then show ?case by (auto split: if_splits)
next
  case (Cons x p)
  obtain a c q where x: "x = (a, c, q)" by (cases x)
  let ?hi = "length (takeWhile (in_cls c) s)"
  let ?f = "\<lambda>k. case re_match p (drop k s) of None \<Rightarrow> None | Some gs \<Rightarrow> Some ((a, take k s) # gs)"
  from Cons.prems x have hi: "\<not> ?hi < min_rep q"
    and bt: "backtrack (min_rep q) (?hi - min_rep q) ?f = Some gs"
    by (auto simp: Let_def split: if_splits)
  from backtrack_SomeD[OF bt] obtain k where k: "min_rep q \<le> k" "k \<le> min_rep q + (?hi - min_rep q)"
    "?f k = Some gs" by blast
  from k(3) obtain gs' where gs': "re_match p (drop k s) = Some gs'" "gs = (a, take k s) # gs'"
    by (auto split: option.splits)
  from Cons.IH[OF gs'(1)] obtain r where ih: "map fst gs' = map fst p" "splits_as p (map snd gs')"
    "drop k s = concat (map snd gs') @ r" "at_dollar r" by blast
  from k(2) hi have khi: "k \<le> ?hi" by simp
  from take_le_takeWhile[OF khi] have all: "list_all (in_cls c) (take k s)" and "k \<le> length s"
    by simp_all
  then have len: "length (take k s) = k" by simp
  have "s = take k s @ drop k s" by simp
  with ih(3) have "s = concat (map snd gs) @ r" using gs'(2) by simp
  moreover have "map fst gs = map fst (x # p)" using ih(1) gs'(2) x by simp
  moreover have "splits_as (x # p) (map snd gs)" using ih(2) all len k(1) gs'(2) x by simp
  ultimately show ?case using ih(4) by blast
qed

lemma takeWhile_all_prefix:
  "list_all P g \<Longrightarrow> length g \<le> length (takeWhile P (g @ t))"
  by (induction g) auto

lemma re_match_Cons_complete:
  assumes "list_all (in_cls c) g" "min_rep q \<le> length g" "s = g @ t" "re_match p t \<noteq> None"
  shows "re_match ((a, c, q) # p) s \<noteq> None"
proof -
  define hi where "hi = length (takeWhile (in_cls c) s)"
  define f where "f = (\<lambda>k. case re_match p (drop k s) of None \<Rightarrow> None | Some gs \<Rightarrow> Some ((a, take k s) # gs))"
  from takeWhile_all_prefix[OF assms(1), of t] assms(3) have le: "length g \<le> hi"
    by (simp add: hi_def)
  have "drop (length g) s = t" using assms(3) by simp
  with assms(4) have fk: "f (length g) \<noteq> None" by (auto simp: f_def split: option.splits)
  have le': "length g \<le> min_rep q + (hi - min_rep q)" using le assms(2) by simp
  have bt: "backtrack (min_rep q) (hi - min_rep q) f \<noteq> None"
    by (rule backtrack_complete[where k = "length g" and f = f, OF assms(2) le' fk])
  have nlt: "\<not> hi < min_rep q" using le assms(2) by simp
  have "re_match ((a, c, q) # p) s =
          (if hi < min_rep q then None else backtrack (min_rep q) (hi - min_rep q) f)"
    by (simp add: Let_def hi_def f_def)
  with bt nlt show ?thesis by simp
qed

lemma re_match_complete:
  "splits_as p gs \<Longrightarrow> at_dollar r \<Longrightarrow> re_match p (concat gs @ r) \<noteq> None"
proof (induction p gs rule: splits_as.induct)
  case 1
  then show ?case by simp
next
  case (2 a c q p g gs)
  from "2.prems" have g: "list_all (in_cls c) g" "min_rep q \<le> length g" "splits_as p gs" by auto
  from "2.IH"[OF g(3) "2.prems"(2)] have "re_match p (concat gs @ r) \<noteq> None" .
  from re_match_Cons_complete[OF g(1) g(2) _ this, of "concat (g # gs) @ r" a]
  show ?case by simp
qed auto

text \<open>When the last group is a whitespace class the match covers the whole subject.\<close>

lemma re_match_whole:
  "re_match p s = Some gs \<Longrightarrow> p \<noteq> [] \<Longrightarrow> fst (snd (last p)) = Space \<Longrightarrow>
     concat (map snd gs) = s"
proof (induction p arbitrary: s gs)
  case Nil
  then show ?case by simp
next
  case (Cons x p)
  obtain a c q where x: "x = (a, c, q)" by (cases x)
  let ?hi = "length (takeWhile (in_cls c) s)"
  let ?f = "\<lambda>k. case re_match p (drop k s) of None \<Rightarrow> None | Some gs \<Rightarrow> Some ((a, take k s) # gs)"
  from Cons.prems(1) x have hi: "\<not> ?hi < min_rep q"
    and bt: "backtrack (min_rep q) (?hi - min_rep q) ?f = Some gs"
    by (auto simp: Let_def split: if_splits)
  from backtrack_SomeD[OF bt] obtain k where k: "min_rep q \<le> k" "k \<le> min_rep q + (?hi - min_rep q)"
    "?f k = Some gs" "\<forall>j. k < j \<and> j \<le> min_rep q + (?hi - min_rep q) \<longrightarrow> ?f j = None" by blast
  from k(3) obtain gs' where gs': "re_match p (drop k s) = Some gs'" "gs = (a, take k s) # gs'"
    by (auto split: option.splits)
  from k(2) hi have khi: "k \<le> ?hi" by simp
  show ?case
  proof (cases "p = []")
    case False
    with Cons.prems(3) have "fst (snd (last p)) = Space" by simp
    from Cons.IH[OF gs'(1) False this] gs'(2) show ?thesis by simp
  next
    case True
    with Cons.prems(3) x have c: "c = Space" by simp
    from True gs'(1) have d: "at_dollar (drop k s)" and "gs' = []" by (auto split: if_splits)
    have "drop k s = []"
    proof (rule ccontr)
      assume "drop k s \<noteq> []"
      with d have nl: "drop k s = [CHR 0x0A]" by (simp add: at_dollar_def)
      have "length (drop k s) = 1" unfolding nl by simp
      then have len: "length s = Suc k" by simp
      from take_le_takeWhile[OF khi] c have sp: "list_all is_space (take k s)"
        by (simp add: list_all_iff)
      have "s = take k s @ drop k s" by simp
      then have s: "s = take k s @ [CHR 0x0A]" unfolding nl .
      have "is_space (CHR 0x0A)" by (simp add: is_space_def)
      with sp have "list_all is_space (take k s @ [CHR 0x0A])" by simp
      with s have "list_all is_space s" by simp
      then have "takeWhile (in_cls c) s = s" using c by (simp add: list_all_iff)
      then have "?hi = Suc k" using len by (simp only:)
      with k(4) hi have "?f (Suc k) = None" by simp
      moreover have "drop (Suc k) s = []" using len by simp
      ultimately show False using True by (simp add: at_dollar_def)
    qed
    with gs'(2) \<open>gs' = []\<close> show ?thesis by simp
  qed
qed

lemma splits_as_Cons:
  "splits_as ((a, c, q) # p) gs =
     (\<exists>g gs'. gs = g # gs' \<and> list_all (in_cls c) g \<and> min_rep q \<le> length g \<and> splits_as p gs')"
  by (cases gs) auto

lemma splits_as_Nil: "splits_as [] gs = (gs = [])"
  by (cases gs) auto

lemma in_cls_eta:
  "in_cls Space = is_space" "in_cls NonSpace = non_space" "in_cls Digit = is_digit"
  by (auto simp: fun_eq_iff)

lemma Suc0_le_length: "(Suc 0 \<le> length g) = (g \<noteq> [])"
  by (cases g) auto

lemma grammar_iff_splits:
  "six_field_grammar raw = (\<exists>gs. splits_as pat gs \<and> raw = concat gs)"
  unfolding six_field_grammar_def pat_def
  apply (simp only: splits_as_Cons splits_as_Nil in_cls_eta min_rep.simps Suc0_le_length le0 One_nat_def)
  apply (rule iffI)
   apply (elim exE conjE)
   apply (rule_tac x="[w1, dev, w2, mp, w3, ft, w4, opts, w5, dmp, w6, fck, w7]" in exI)
   apply simp
  apply (elim exE conjE)
  apply simp
  apply blast
  done

lemma grammar_iff_match: "six_field_grammar raw = (re_match pat raw \<noteq> None)"
proof
  assume "six_field_grammar raw"
  then obtain gs where gs: "splits_as pat gs" "raw = concat gs"
    unfolding grammar_iff_splits by blast
  have "at_dollar []" by (simp add: at_dollar_def)
  from re_match_complete[OF gs(1) this] gs(2) show "re_match pat raw \<noteq> None" by simp
next
  assume "re_match pat raw \<noteq> None"
  then obtain gs where gs: "re_match pat raw = Some gs" by blast
  have "pat \<noteq> []" "fst (snd (last pat)) = Space" by (simp_all add: pat_def)
  from re_match_whole[OF gs this] have "concat (map snd gs) = raw" .
  moreover from re_match_sound[OF gs] have "splits_as pat (map snd gs)" by blast
  ultimately show "six_field_grammar raw" unfolding grammar_iff_splits by blast
qed

section \<open>Parsing and rendering one line\<close>

lemma update_items_apply:
  "update_items (map (\<lambda>a. (a, f a)) as) d x = (if x \<in> set as then Some (f x) else d x)"
  by (induction as arbitrary: d) auto

lemma set_attrs: "(a \<in> set attrs) = (a \<noteq> Raw)"
  by (cases a) (simp_all add: attrs_def)

lemma map_fst_pat: "map fst pat = attrs"
  by (simp add: pat_def attrs_def)

lemma distinct_attrs: "distinct attrs"
  by (simp add: attrs_def)

lemma dict_Line:
  "dict (Line raw) a =
     (if a = Raw then Some (Some raw)
      else Some (case raw_match raw of None \<Rightarrow> None | Some gs \<Rightarrow> map_of gs a))"
  by (auto simp: Line_def set_raw_def Let_def group_def update_items_apply set_attrs
        split: option.splits)

lemma inst_Line: "inst (Line raw) = Map.empty"
  by (simp add: Line_def set_raw_def Let_def)

lemma raw_match_keys: "raw_match raw = Some gs \<Longrightarrow> map fst gs = attrs"
  using re_match_sound[of pat raw gs] by (auto simp: raw_match_def map_fst_pat split: if_splits)

lemma raw_match_whole: "raw_match raw = Some gs \<Longrightarrow> concat (map snd gs) = raw"
  using re_match_whole[of pat raw gs] by (auto simp: raw_match_def pat_def split: if_splits)

lemma raw_match_iff:
  "(raw_match raw \<noteq> None) = (\<not> blank_or_comment raw \<and> six_field_grammar raw)"
  by (auto simp: raw_match_def blank_or_comment_def grammar_iff_match)

lemma map_of_key_in: "map fst gs = as \<Longrightarrow> a \<in> set as \<Longrightarrow> map_of gs a \<noteq> None"
  by (metis map_of_eq_None_iff set_map)

lemma getattr_Line:
  "a \<noteq> Raw \<Longrightarrow> getattr a (Line raw) =
     Inr (case raw_match raw of None \<Rightarrow> None | Some gs \<Rightarrow> map_of gs a)"
  by (simp add: getattr_def inst_Line dict_Line)

lemma has_filesystem_Line: "has_filesystem (Line raw) = Inr (raw_match raw \<noteq> None)"
proof (cases "raw_match raw")
  case None
  then show ?thesis by (simp add: has_filesystem_def getattr_Line)
next
  case (Some gs)
  from raw_match_keys[OF Some] have "map_of gs Device \<noteq> None"
    by (rule map_of_key_in) (simp add: attrs_def)
  with Some show ?thesis by (auto simp: has_filesystem_def getattr_Line)
qed

lemma join_fields_groups:
  "distinct (map fst gs) \<Longrightarrow> (\<And>a g. (a, g) \<in> set gs \<Longrightarrow> d a = Some (Some g)) \<Longrightarrow>
     join_fields (map fst gs) d = Inr (concat (map snd gs))"
proof (induction gs)
  case Nil
  then show ?case by simp
next
  case (Cons x gs)
  obtain a g where x: "x = (a, g)" by (cases x)
  from Cons.prems have "join_fields (map fst gs) d = Inr (concat (map snd gs))"
    by (intro Cons.IH) auto
  moreover from Cons.prems(2) x have "d a = Some (Some g)" by simp
  ultimately show ?case using x by simp
qed

lemma join_fields_Line:
  assumes "raw_match raw = Some gs"
  shows "join_fields attrs (dict (Line raw)) = Inr raw"
proof -
  have keys: "map fst gs = attrs" by (rule raw_match_keys[OF assms])
  then have dist: "distinct (map fst gs)" by (simp add: distinct_attrs)
  have "\<And>a g. (a, g) \<in> set gs \<Longrightarrow> dict (Line raw) a = Some (Some g)"
  proof -
    fix a g assume ag: "(a, g) \<in> set gs"
    then have "a \<in> set (map fst gs)" by force
    with keys have "a \<noteq> Raw" by (simp add: set_attrs)
    moreover from dist ag have "map_of gs a = Some g" by simp
    ultimately show "dict (Line raw) a = Some (Some g)" using assms by (simp add: dict_Line)
  qed
  from join_fields_groups[OF dist this] keys raw_match_whole[OF assms]
  show ?thesis by simp
qed

lemma get_raw_Line: "get_raw (Line raw) = Inr (Some raw)"
proof (cases "raw_match raw")
  case None
  then show ?thesis by (simp add: get_raw_def has_filesystem_Line dict_Line)
next
  case (Some gs)
  then show ?thesis by (simp add: get_raw_def has_filesystem_Line join_fields_Line)
qed

lemmas eval_defs = pat_def is_space_def non_space_def is_digit_def at_dollar_def strip_def
  startswith_hash_def blank_or_comment_def

text \<open>
  C1. A line that is blank, a comment, or no match of the six-field grammar is
  parsed as a line without filesystem specification, and rendering that line
  returns the original text unchanged.
\<close>

theorem C1_opaque_round_trip:
  "blank_or_comment raw \<or> \<not> six_field_grammar raw \<Longrightarrow>
     has_filesystem (Line raw) = Inr False \<and> get_raw (Line raw) = Inr (Some raw)"
  using raw_match_iff[of raw] by (auto simp: has_filesystem_Line get_raw_Line)

theorem C1_opaque_round_trip_witness:
  "(blank_or_comment (''# /dev/sda1 / ext4 defaults 0 1'' @ [CHR 0x0A]) \<and>
    get_raw (Line (''# /dev/sda1 / ext4 defaults 0 1'' @ [CHR 0x0A])) =
      Inr (Some (''# /dev/sda1 / ext4 defaults 0 1'' @ [CHR 0x0A]))) \<and>
   (\<not> six_field_grammar (''/dev/sda1 / ext4'' @ [CHR 0x0A]) \<and>
    get_raw (Line (''/dev/sda1 / ext4'' @ [CHR 0x0A])) = Inr (Some (''/dev/sda1 / ext4'' @ [CHR 0x0A])))"
proof -
  have a: "blank_or_comment (''# /dev/sda1 / ext4 defaults 0 1'' @ [CHR 0x0A])"
    by (simp add: eval_defs)
  have b: "\<not> six_field_grammar (''/dev/sda1 / ext4'' @ [CHR 0x0A])"
    unfolding grammar_iff_match by (simp add: eval_defs)
  from a b
    C1_opaque_round_trip[of "''# /dev/sda1 / ext4 defaults 0 1'' @ [CHR 0x0A]"]
    C1_opaque_round_trip[of "''/dev/sda1 / ext4'' @ [CHR 0x0A]"]
  show ?thesis by blast
qed

text \<open>
  C2. For a line that matches the six-field grammar, parsing and then
  rendering returns the original text; when the line is no comment it is
  parsed as a filesystem line, whose rendering is the concatenation of
  \<open>ws1, device, ws2, directory, ws3, fstype, ws4, options, ws5, dump, ws6, fsck, ws7\<close>.
\<close>

theorem C2_wellformed_round_trip:
  "six_field_grammar raw \<Longrightarrow>
     get_raw (Line raw) = Inr (Some raw) \<and>
     (blank_or_comment raw \<or>
      (has_filesystem (Line raw) = Inr True \<and> join_fields attrs (dict (Line raw)) = Inr raw))"
proof -
  assume g: "six_field_grammar raw"
  show ?thesis
  proof (cases "blank_or_comment raw")
    case True
    then show ?thesis by (simp add: get_raw_Line)
  next
    case False
    with g raw_match_iff[of raw] obtain gs where "raw_match raw = Some gs" by auto
    then show ?thesis by (simp add: get_raw_Line has_filesystem_Line join_fields_Line)
  qed
qed

theorem C2_wellformed_round_trip_witness:
  "six_field_grammar (''/dev/sda1 / ext4 defaults 0 1'' @ [CHR 0x0A]) \<and>
   get_raw (Line (''/dev/sda1 / ext4 defaults 0 1'' @ [CHR 0x0A])) =
     Inr (Some (''/dev/sda1 / ext4 defaults 0 1'' @ [CHR 0x0A])) \<and>
   has_filesystem (Line (''/dev/sda1 / ext4 defaults 0 1'' @ [CHR 0x0A])) = Inr True \<and>
   join_fields attrs (dict (Line (''/dev/sda1 / ext4 defaults 0 1'' @ [CHR 0x0A]))) =
     Inr (''/dev/sda1 / ext4 defaults 0 1'' @ [CHR 0x0A])"
proof -
  have g: "six_field_grammar (''/dev/sda1 / ext4 defaults 0 1'' @ [CHR 0x0A])"
    unfolding grammar_iff_match by (simp add: eval_defs)
  have c: "\<not> blank_or_comment (''/dev/sda1 / ext4 defaults 0 1'' @ [CHR 0x0A])"
    by (simp add: eval_defs)
  from g c C2_wellformed_round_trip[OF g] show ?thesis by blast
qed

text \<open>
  C8. Parsing never fails. A line whose trimmed text is empty or starts with
  \<open>#\<close> is parsed as a line without filesystem specification; any other line is
  parsed as a filesystem line exactly when the whole line matches the
  six-field grammar, and as a line without filesystem specification otherwise.
  A line without filesystem specification keeps its raw text.
\<close>

theorem C8_parse_classification:
  "has_filesystem (Line raw) = Inr (\<not> blank_or_comment raw \<and> six_field_grammar raw) \<and>
   getattr Raw (Line raw) = Inr (Some raw)"
  using raw_match_iff[of raw]
  by (simp add: has_filesystem_Line getattr_def inst_Line dict_Line)

theorem C8_parse_classification_witness:
  "has_filesystem (Line (''/dev/sda1 / ext4 defaults 0 1'' @ [CHR 0x0A])) = Inr True \<and>
   has_filesystem (Line (''# /dev/sda1 / ext4 defaults 0 1'' @ [CHR 0x0A])) = Inr False \<and>
   has_filesystem (Line (''/dev/sda1 / ext4 defaults zero 1'' @ [CHR 0x0A])) = Inr False"
proof -
  have g: "six_field_grammar (''/dev/sda1 / ext4 defaults 0 1'' @ [CHR 0x0A])"
    unfolding grammar_iff_match by (simp add: eval_defs)
  have c: "\<not> blank_or_comment (''/dev/sda1 / ext4 defaults 0 1'' @ [CHR 0x0A])"
    by (simp add: eval_defs)
  have h: "blank_or_comment (''# /dev/sda1 / ext4 defaults 0 1'' @ [CHR 0x0A])"
    by (simp add: eval_defs)
  have n: "\<not> six_field_grammar (''/dev/sda1 / ext4 defaults zero 1'' @ [CHR 0x0A])"
    unfolding grammar_iff_match by (simp add: eval_defs)
  from g c h n
    C8_parse_classification[of "''/dev/sda1 / ext4 defaults 0 1'' @ [CHR 0x0A]"]
    C8_parse_classification[of "''# /dev/sda1 / ext4 defaults 0 1'' @ [CHR 0x0A]"]
    C8_parse_classification[of "''/dev/sda1 / ext4 defaults zero 1'' @ [CHR 0x0A]"]
  show ?thesis by simp
qed

section \<open>Field mutation\<close>

lemma join_fields_append:
  "join_fields as d = Inr r \<Longrightarrow> join_fields bs d = Inr t \<Longrightarrow>
     join_fields (as @ bs) d = Inr (r @ t)"
  by (induction as arbitrary: r) (auto split: option.splits sum.splits)

lemma join_fields_cong:
  "(\<And>a. a \<in> set as \<Longrightarrow> d a = d' a) \<Longrightarrow> join_fields as d = join_fields as d'"
  by (induction as) (auto split: option.splits sum.splits)

lemma split_comma_append:
  "CHR '','' \<notin> set x \<Longrightarrow> split_comma (x @ CHR '','' # s) = x # split_comma s"
  by (induction x) (auto split: list.splits)

lemma split_comma_plain: "CHR '','' \<notin> set x \<Longrightarrow> split_comma x = [x]"
  by (induction x) (auto split: list.splits)

lemma split_comma_join:
  "xs \<noteq> [] \<Longrightarrow> list_all (\<lambda>x. CHR '','' \<notin> set x) xs \<Longrightarrow> split_comma (join '','' xs) = xs"
proof (induction xs)
  case Nil
  then show ?case by simp
next
  case (Cons x xs)
  show ?case
  proof (cases xs)
    case Nil
    with Cons.prems show ?thesis by (simp add: split_comma_plain)
  next
    case (Cons y ys)
    with Cons.prems Cons.IH show ?thesis by (simp add: split_comma_append)
  qed
qed

text \<open>
  C9. On every filesystem line whose other fields render, assigning the list
  \<open>["a", "b"]\<close> to \<open>options\<close> succeeds; reading \<open>options\<close> back returns
  \<open>["a", "b"]\<close>, and the rendered line carries \<open>a,b\<close> between the text before
  and the text after the options field. For any list \<open>xs\<close> the rendered line
  carries the elements joined with commas there, and reading back returns \<open>xs\<close>
  itself when \<open>xs\<close> is non-empty and no element contains a comma.
\<close>

theorem C9_options_list_view:
  assumes "has_filesystem l = Inr True"
    and "join_fields [Ws1, Device, Ws2, Directory, Ws3, Fstype, Ws4] (dict l) = Inr before"
    and "join_fields [Ws5, Dump, Ws6, Fsck, Ws7] (dict l) = Inr after"
  shows "assign_options [''a'', ''b''] l = Inr (set_options [''a'', ''b''] l) \<and>
         get_options (set_options [''a'', ''b''] l) = Inr [''a'', ''b''] \<and>
         get_raw (set_options [''a'', ''b''] l) = Inr (Some (before @ ''a,b'' @ after)) \<and>
         assign_options xs l = Inr (set_options xs l) \<and>
         get_raw (set_options xs l) = Inr (Some (before @ join '','' xs @ after)) \<and>
         get_options (set_options xs l) = Inr (split_comma (join '','' xs)) \<and>
         (xs = [] \<or> list_ex (\<lambda>x. CHR '','' \<in> set x) xs \<or>
          get_options (set_options xs l) = Inr xs)"
proof -
  have hf: "has_filesystem (set_options ys l) = Inr True" for ys
    using assms(1) by (auto simp: has_filesystem_def getattr_def set_options_def split: option.splits)
  have b: "join_fields [Ws1, Device, Ws2, Directory, Ws3, Fstype, Ws4] (dict (set_options ys l)) = Inr before" for ys
  proof -
    have "join_fields [Ws1, Device, Ws2, Directory, Ws3, Fstype, Ws4] (dict (set_options ys l)) =
          join_fields [Ws1, Device, Ws2, Directory, Ws3, Fstype, Ws4] (dict l)"
      by (rule join_fields_cong) (auto simp: set_options_def)
    with assms(2) show ?thesis by simp
  qed
  have a: "join_fields [Ws5, Dump, Ws6, Fsck, Ws7] (dict (set_options ys l)) = Inr after" for ys
  proof -
    have "join_fields [Ws5, Dump, Ws6, Fsck, Ws7] (dict (set_options ys l)) =
          join_fields [Ws5, Dump, Ws6, Fsck, Ws7] (dict l)"
      by (rule join_fields_cong) (auto simp: set_options_def)
    with assms(3) show ?thesis by simp
  qed
  have o: "dict (set_options ys l) Options = Some (Some (join '','' ys))" for ys
    by (simp add: set_options_def)
  have r: "get_raw (set_options ys l) = Inr (Some (before @ join '','' ys @ after))" for ys
  proof -
    have "join_fields [Options] (dict (set_options ys l)) = Inr (join '','' ys)"
      by (simp add: o)
    from join_fields_append[OF this a]
    have "join_fields ([Options] @ [Ws5, Dump, Ws6, Fsck, Ws7]) (dict (set_options ys l)) =
            Inr (join '','' ys @ after)" .
    from join_fields_append[OF b this]
    have "join_fields attrs (dict (set_options ys l)) = Inr (before @ join '','' ys @ after)"
      by (simp add: attrs_def)
    then show ?thesis by (simp add: get_raw_def hf)
  qed
  have g: "get_options (set_options ys l) = Inr (split_comma (join '','' ys))" for ys
    by (simp add: get_options_def o)
  have rt: "xs = [] \<or> list_ex (\<lambda>x. CHR '','' \<in> set x) xs \<or>
          get_options (set_options xs l) = Inr xs"
    using split_comma_join[of xs] by (auto simp: g list_all_iff list_ex_iff)
  have ab: "join '','' [''a'', ''b''] = ''a,b''" by simp
  have sab: "split_comma ''a,b'' = [''a'', ''b'']" by simp
  from r[of "[''a'', ''b'']"] r[of xs] g[of "[''a'', ''b'']"] g[of xs] rt
  show ?thesis unfolding ab sab by (simp add: assign_options_def)
qed

theorem C9_options_list_view_witness:
  "has_filesystem (Line (''/dev/sda1 / ext4 defaults 0 1'' @ [CHR 0x0A])) = Inr True \<and>
   get_options (set_options [''a'', ''b''] (Line (''/dev/sda1 / ext4 defaults 0 1'' @ [CHR 0x0A])))
     = Inr [''a'', ''b''] \<and>
   get_raw (set_options [''a'', ''b''] (Line (''/dev/sda1 / ext4 defaults 0 1'' @ [CHR 0x0A])))
     = Inr (Some (''/dev/sda1 / ext4 a,b 0 1'' @ [CHR 0x0A]))"
proof -
  let ?l = "Line (''/dev/sda1 / ext4 defaults 0 1'' @ [CHR 0x0A])"
  have m: "raw_match (''/dev/sda1 / ext4 defaults 0 1'' @ [CHR 0x0A]) =
     Some [(Ws1, []), (Device, ''/dev/sda1''), (Ws2, '' ''), (Directory, ''/''),
       (Ws3, '' ''), (Fstype, ''ext4''), (Ws4, '' ''), (Options, ''defaults''),
       (Ws5, '' ''), (Dump, ''0''), (Ws6, '' ''), (Fsck, ''1''), (Ws7, [CHR 0x0A])]"
    by (simp add: raw_match_def eval_defs)
  have h: "has_filesystem ?l = Inr True" using m by (simp add: has_filesystem_Line)
  have b: "join_fields [Ws1, Device, Ws2, Directory, Ws3, Fstype, Ws4] (dict ?l) = Inr ''/dev/sda1 / ext4 ''"
    using m by (simp add: dict_Line)
  have a: "join_fields [Ws5, Dump, Ws6, Fsck, Ws7] (dict ?l) = Inr ('' 0 1'' @ [CHR 0x0A])"
    using m by (simp add: dict_Line)
  from h C9_options_list_view[OF h b a, of "[]"] show ?thesis by simp
qed

section \<open>Assignments on a line without filesystem specification\<close>

lemma setattr_opaque:
  "raw_match raw = None \<Longrightarrow> a \<in> set attrs \<Longrightarrow> a \<notin> set forbidden \<Longrightarrow>
     setattr a v (Line raw) = Inl (NoFilesystemSpec a)"
  by (simp add: setattr_def dict_Line set_attrs dom_def)

text \<open>
  C3. On the line parsed from a comment, assigning \<open>device\<close>, \<open>directory\<close> or
  \<open>fstype\<close> raises the "no filesystem specification" exception, while assigning
  \<open>options\<close>, \<open>dump\<close> or \<open>fsck\<close> returns normally and stores the value in the
  dictionary: the three property setters do not test for a filesystem
  specification.
\<close>

theorem C3_property_setters_skip_the_check:
  "has_filesystem (Line (''# comment'' @ [CHR 0x0A])) = Inr False \<and>
   setattr Device ''/dev/sda1'' (Line (''# comment'' @ [CHR 0x0A])) = Inl (NoFilesystemSpec Device) \<and>
   setattr Directory ''/mnt'' (Line (''# comment'' @ [CHR 0x0A])) = Inl (NoFilesystemSpec Directory) \<and>
   setattr Fstype ''ext4'' (Line (''# comment'' @ [CHR 0x0A])) = Inl (NoFilesystemSpec Fstype) \<and>
   assign_options [''a'', ''b''] (Line (''# comment'' @ [CHR 0x0A])) =
     Inr (set_options [''a'', ''b''] (Line (''# comment'' @ [CHR 0x0A]))) \<and>
   get_options (set_options [''a'', ''b''] (Line (''# comment'' @ [CHR 0x0A]))) = Inr [''a'', ''b''] \<and>
   assign_dump 1 (Line (''# comment'' @ [CHR 0x0A])) = Inr (set_dump 1 (Line (''# comment'' @ [CHR 0x0A]))) \<and>
   dict (set_dump 1 (Line (''# comment'' @ [CHR 0x0A]))) Dump = Some (Some ''1'') \<and>
   assign_fsck 2 (Line (''# comment'' @ [CHR 0x0A])) = Inr (set_fsck 2 (Line (''# comment'' @ [CHR 0x0A]))) \<and>
   dict (set_fsck 2 (Line (''# comment'' @ [CHR 0x0A]))) Fsck = Some (Some ''2'')"
proof -
  have m: "raw_match (''# comment'' @ [CHR 0x0A]) = None"
    by (simp add: raw_match_def eval_defs)
  have s1: "str_int 1 = ''1''" and s2: "str_int 2 = ''2''"
    by (simp_all add: str_int_def str_nat.simps digit_char_def)
  from m show ?thesis
    by (simp add: has_filesystem_Line setattr_opaque attrs_def forbidden_def
        assign_options_def assign_dump_def assign_fsck_def get_options_def set_options_def
        set_dump_def set_fsck_def s1 s2)
qed

section \<open>The table: \<open>get_entry\<close>, \<open>delete_entry\<close>, \<open>add_entry\<close>\<close>

lemma getattr_has_directory:
  "has_directory l \<Longrightarrow> \<exists>v. getattr Directory l = Inr v"
  by (auto simp: has_directory_def getattr_def split: option.splits)

lemma has_directory_Line: "has_directory (Line raw)"
  by (simp add: has_directory_def dict_Line)

lemma drop_as_Cons: "i < length ls \<Longrightarrow> drop i ls = ls ! i # drop (Suc i) ls"
  by (simp add: Cons_nth_drop_Suc)

lemma skip_delete_miss: "\<not> P x \<Longrightarrow> skip_delete P (x # xs) = x # skip_delete P xs"
  by (cases xs) auto

lemma delete_loop_eq:
  "list_all has_directory ls \<Longrightarrow>
     delete_loop d i ls = Inr (take i ls @ skip_delete (mounted_at d) (drop i ls))"
proof (induction d i ls rule: delete_loop.induct)
  case (1 d i ls)
  show ?case
  proof (cases "i < length ls")
    case False
    then show ?thesis by (simp add: delete_loop.simps[of d i ls])
  next
    case True
    from "1.prems" True have "has_directory (ls ! i)" by (simp add: list_all_length)
    then obtain v where v: "getattr Directory (ls ! i) = Inr v"
      using getattr_has_directory by blast
    show ?thesis
    proof (cases "v = Some d")
      case hit: True
      let ?ls' = "take i ls @ drop (Suc i) ls"
      have ok: "list_all has_directory ?ls'"
        using "1.prems" by (auto simp: list_all_iff dest: in_set_takeD in_set_dropD)
      have m: "mounted_at d (ls ! i)" using v hit by (simp add: mounted_at_def)
      have t: "take i ?ls' = take i ls" using True by simp
      have dr: "drop i ?ls' = drop (Suc i) ls" using True by simp
      have IH: "delete_loop d (Suc i) ?ls' =
                  Inr (take (Suc i) ?ls' @ skip_delete (mounted_at d) (drop (Suc i) ?ls'))"
        using "1.IH"(1)[OF True v hit ok] .
      have "take (Suc i) ?ls' @ skip_delete (mounted_at d) (drop (Suc i) ?ls') =
            take i ls @ skip_delete (mounted_at d) (drop i ls)"
      proof (cases "drop (Suc i) ls")
        case Nil
        then have "Suc i \<ge> length ls" by simp
        with True have len: "length ls = Suc i" by simp
        have "drop i ls = [ls ! i]" using drop_as_Cons[OF True] Nil by simp
        moreover have "take (Suc i) ?ls' = take i ls" using len by simp
        moreover have "drop (Suc i) ?ls' = []" using len by simp
        ultimately show ?thesis using m by simp
      next
        case (Cons y ys)
        then have lt: "Suc i < length ls" by (metis drop_eq_Nil2 list.distinct(1) not_le)
        have d1: "drop i ls = ls ! i # y # ys" using drop_as_Cons[OF True] Cons by simp
        have "?ls' = take i ls @ y # ys" using Cons by simp
        moreover have li: "length (take i ls) = i" using True by simp
        ultimately have "take (Suc i) ?ls' = take i ls @ [y]"
          and "drop (Suc i) ?ls' = ys"
          by (simp_all add: take_Suc_conv_app_nth nth_append)
        then show ?thesis using d1 m by simp
      qed
      with IH v hit True show ?thesis by (simp add: delete_loop.simps[of d i ls])
    next
      case miss: False
      have m: "\<not> mounted_at d (ls ! i)" using v miss by (simp add: mounted_at_def)
      have IH: "delete_loop d (Suc i) ls =
                  Inr (take (Suc i) ls @ skip_delete (mounted_at d) (drop (Suc i) ls))"
        using "1.IH"(2)[OF True v miss "1.prems"] .
      have "take (Suc i) ls @ skip_delete (mounted_at d) (drop (Suc i) ls) =
            take i ls @ skip_delete (mounted_at d) (drop i ls)"
        using drop_as_Cons[OF True] m True
        by (simp add: take_Suc_conv_app_nth skip_delete_miss)
      with IH v miss True show ?thesis by (simp add: delete_loop.simps[of d i ls])
    qed
  qed
qed

lemma skip_delete_hit: "P x \<Longrightarrow> skip_delete P (x # xs) = (case xs of [] \<Rightarrow> [] | y # ys \<Rightarrow> y # skip_delete P ys)"
  by (cases xs) auto

lemma skip_delete_none: "\<not> list_ex P xs \<Longrightarrow> skip_delete P xs = xs"
  by (induction xs) (auto simp: skip_delete_miss)

lemma skip_delete_filter:
  "filter (\<lambda>x. \<not> P x) (skip_delete P xs) = filter (\<lambda>x. \<not> P x) xs"
  by (induction P xs rule: skip_delete.induct) auto

lemma skip_delete_subseq: "subseq (skip_delete P xs) xs"
  by (induction P xs rule: skip_delete.induct) auto

lemma skip_delete_first:
  "skip_delete P xs = takeWhile (\<lambda>x. \<not> P x) xs @ after_hit P xs"
proof (induction xs)
  case Nil
  then show ?case by (simp add: after_hit_def)
next
  case (Cons x xs)
  show ?case
  proof (cases "P x")
    case True
    then show ?thesis by (simp add: skip_delete_hit after_hit_def)
  next
    case False
    with Cons show ?thesis by (simp add: skip_delete_miss after_hit_def)
  qed
qed

lemma after_hit_subseq: "subseq (after_hit P xs) (tl (dropWhile (\<lambda>x. \<not> P x) xs))"
  by (auto simp: after_hit_def skip_delete_subseq split: list.splits)

lemma after_hit_none:
  "\<not> list_ex P (tl (dropWhile (\<lambda>x. \<not> P x) xs)) \<Longrightarrow>
     after_hit P xs = tl (dropWhile (\<lambda>x. \<not> P x) xs)"
  by (auto simp: after_hit_def skip_delete_none split: list.splits)

lemma skip_delete_single:
  "length (filter P xs) \<le> 1 \<Longrightarrow> skip_delete P xs = filter (\<lambda>x. \<not> P x) xs"
proof (induction xs)
  case Nil
  then show ?case by simp
next
  case (Cons x xs)
  show ?case
  proof (cases "P x")
    case True
    with Cons.prems have "filter P xs = []" by simp
    then have n: "\<not> list_ex P xs" by (simp add: list_ex_iff filter_empty_conv)
    then have "filter (\<lambda>x. \<not> P x) xs = xs" by (simp add: list_ex_iff)
    moreover have "(case xs of [] \<Rightarrow> [] | y # ys \<Rightarrow> y # skip_delete P ys) = xs"
    proof (cases xs)
      case Nil then show ?thesis by simp
    next
      case (Cons y ys)
      with n have "\<not> list_ex P ys" by simp
      with Cons show ?thesis by (simp add: skip_delete_none)
    qed
    ultimately show ?thesis using True by (simp add: skip_delete_hit)
  next
    case False
    with Cons show ?thesis by (simp add: skip_delete_miss)
  qed
qed

text \<open>
  C4 (amended). On a table whose lines all have the \<open>directory\<close> key,
  \<open>delete_entry\<close> succeeds; the result keeps the lines before the first line
  mounted at the argument, drops that line, and continues with a subsequence
  \<open>rest\<close> of the lines after it, which is all of them when none of them is
  mounted at the argument. Every line not mounted at the argument (so every
  line without filesystem specification) stays, in order, and a table with no
  line mounted at the argument is returned unchanged.
\<close>

theorem C4_delete_entry:
  assumes "list_all has_directory (lines t)"
  shows "\<exists>rest. delete_entry d t =
           Inr (t\<lparr>lines := takeWhile (\<lambda>l. \<not> mounted_at d l) (lines t) @ rest\<rparr>) \<and>
         subseq rest (tl (dropWhile (\<lambda>l. \<not> mounted_at d l) (lines t))) \<and>
         (list_ex (mounted_at d) (tl (dropWhile (\<lambda>l. \<not> mounted_at d l) (lines t))) \<or>
          rest = tl (dropWhile (\<lambda>l. \<not> mounted_at d l) (lines t))) \<and>
         filter (\<lambda>l. \<not> mounted_at d l) (takeWhile (\<lambda>l. \<not> mounted_at d l) (lines t) @ rest) =
           filter (\<lambda>l. \<not> mounted_at d l) (lines t) \<and>
         (list_ex (mounted_at d) (lines t) \<or>
          delete_entry d t = Inr t)"
proof -
  let ?P = "mounted_at d"
  have de: "delete_entry d t = Inr (t\<lparr>lines := skip_delete ?P (lines t)\<rparr>)"
    using delete_loop_eq[OF assms, of d 0] by (simp add: delete_entry_def)
  have eq: "skip_delete ?P (lines t) = takeWhile (\<lambda>l. \<not> ?P l) (lines t) @ after_hit ?P (lines t)"
    by (rule skip_delete_first)
  have f: "filter (\<lambda>l. \<not> ?P l) (takeWhile (\<lambda>l. \<not> ?P l) (lines t) @ after_hit ?P (lines t)) =
           filter (\<lambda>l. \<not> ?P l) (lines t)"
    using skip_delete_filter[of ?P "lines t"] unfolding eq .
  have n: "list_ex ?P (lines t) \<or> delete_entry d t = Inr t"
  proof (cases "list_ex ?P (lines t)")
    case True
    then show ?thesis by simp
  next
    case False
    then have "skip_delete ?P (lines t) = lines t" by (rule skip_delete_none)
    with de show ?thesis by simp
  qed
  have s: "subseq (after_hit ?P (lines t)) (tl (dropWhile (\<lambda>l. \<not> ?P l) (lines t)))"
    by (rule after_hit_subseq)
  have a: "list_ex ?P (tl (dropWhile (\<lambda>l. \<not> ?P l) (lines t))) \<or>
          after_hit ?P (lines t) = tl (dropWhile (\<lambda>l. \<not> ?P l) (lines t))"
    using after_hit_none[of ?P "lines t"] by blast
  show ?thesis
    apply (rule exI[of _ "after_hit ?P (lines t)"])
    using de f n s a unfolding eq by (intro conjI) 
qed

lemma mounted_at_Line:
  "mounted_at d (Line raw) =
     (case raw_match raw of None \<Rightarrow> False | Some gs \<Rightarrow> map_of gs Directory = Some d)"
  by (simp add: mounted_at_def getattr_Line split: option.splits)

lemma Line_opaque_not_mounted:
  "has_filesystem (Line raw) = Inr False \<Longrightarrow> \<not> mounted_at d (Line raw)"
  by (simp add: has_filesystem_Line mounted_at_Line)

lemmas line_eval = mounted_at_Line raw_match_def eval_defs

theorem C4_delete_entry_witness:
  "list_all has_directory
     [Line (''# static file system information'' @ [CHR 0x0A]),
      Line (''/dev/sda1 /mnt ext4 defaults 0 1'' @ [CHR 0x0A]),
      Line (''/dev/sdb1 /data ext4 defaults 0 2'' @ [CHR 0x0A])] \<and>
   delete_entry ''/mnt''
     \<lparr>fstab_file = ''/etc/fstab'',
      lines = [Line (''# static file system information'' @ [CHR 0x0A]),
               Line (''/dev/sda1 /mnt ext4 defaults 0 1'' @ [CHR 0x0A]),
               Line (''/dev/sdb1 /data ext4 defaults 0 2'' @ [CHR 0x0A])]\<rparr> =
   Inr \<lparr>fstab_file = ''/etc/fstab'',
        lines = [Line (''# static file system information'' @ [CHR 0x0A]),
                 Line (''/dev/sdb1 /data ext4 defaults 0 2'' @ [CHR 0x0A])]\<rparr>"
proof -
  let ?C = "Line (''# static file system information'' @ [CHR 0x0A])"
  let ?A = "Line (''/dev/sda1 /mnt ext4 defaults 0 1'' @ [CHR 0x0A])"
  let ?X = "Line (''/dev/sdb1 /data ext4 defaults 0 2'' @ [CHR 0x0A])"
  let ?t = "\<lparr>fstab_file = ''/etc/fstab'', lines = [?C, ?A, ?X]\<rparr>"
  have h: "list_all has_directory (lines ?t)" by (simp add: has_directory_Line)
  have c: "\<not> mounted_at ''/mnt'' ?C" by (simp add: line_eval)
  have a: "mounted_at ''/mnt'' ?A" by (simp add: line_eval)
  have x: "\<not> mounted_at ''/mnt'' ?X" by (simp add: line_eval)
  have tw: "takeWhile (\<lambda>l. \<not> mounted_at ''/mnt'' l) (lines ?t) = [?C]"
    using c a by simp
  have dw: "tl (dropWhile (\<lambda>l. \<not> mounted_at ''/mnt'' l) (lines ?t)) = [?X]"
    using c a by simp
  from C4_delete_entry[OF h, of "''/mnt''"] obtain rest where
    r: "delete_entry ''/mnt'' ?t =
          Inr (?t\<lparr>lines := takeWhile (\<lambda>l. \<not> mounted_at ''/mnt'' l) (lines ?t) @ rest\<rparr>)"
       "list_ex (mounted_at ''/mnt'') (tl (dropWhile (\<lambda>l. \<not> mounted_at ''/mnt'' l) (lines ?t))) \<or>
        rest = tl (dropWhile (\<lambda>l. \<not> mounted_at ''/mnt'' l) (lines ?t))"
    by blast
  from r(2) x have "rest = [?X]" unfolding dw by simp
  with r(1) have "delete_entry ''/mnt'' ?t = Inr (?t\<lparr>lines := [?C, ?X]\<rparr>)"
    unfolding tw by simp
  with h show ?thesis by simp
qed

text \<open>
  C4 as stated fails: with a comment line between two entries for \<open>/mnt\<close>, the
  later entry is deleted as well.
\<close>

theorem C4_later_duplicate_removed:
  "mounted_at ''/mnt'' (Line (''/dev/sdb1 /mnt ext4 defaults 0 2'' @ [CHR 0x0A])) \<and>
   delete_entry ''/mnt''
     \<lparr>fstab_file = ''/etc/fstab'',
      lines = [Line (''/dev/sda1 /mnt ext4 defaults 0 1'' @ [CHR 0x0A]),
               Line (''# static file system information'' @ [CHR 0x0A]),
               Line (''/dev/sdb1 /mnt ext4 defaults 0 2'' @ [CHR 0x0A])]\<rparr> =
   Inr \<lparr>fstab_file = ''/etc/fstab'',
        lines = [Line (''# static file system information'' @ [CHR 0x0A])]\<rparr>"
proof -
  let ?C = "Line (''# static file system information'' @ [CHR 0x0A])"
  let ?A = "Line (''/dev/sda1 /mnt ext4 defaults 0 1'' @ [CHR 0x0A])"
  let ?B = "Line (''/dev/sdb1 /mnt ext4 defaults 0 2'' @ [CHR 0x0A])"
  have h: "list_all has_directory [?A, ?C, ?B]" by (simp add: has_directory_Line)
  have c: "\<not> mounted_at ''/mnt'' ?C" by (simp add: line_eval)
  have a: "mounted_at ''/mnt'' ?A" by (simp add: line_eval)
  have b: "mounted_at ''/mnt'' ?B" by (simp add: line_eval)
  have "skip_delete (mounted_at ''/mnt'') [?A, ?C, ?B] = [?C]"
    using a b c by simp
  with delete_loop_eq[OF h, of "''/mnt''" 0] b show ?thesis
    by (simp add: delete_entry_def)
qed

lemma backtrack_top: "f (lo + d) = Some r \<Longrightarrow> backtrack lo d f = Some r"
  by (cases d) auto

lemma takeWhile_run:
  "list_all P g \<Longrightarrow> t = [] \<or> \<not> P (hd t) \<Longrightarrow> takeWhile P (g @ t) = g"
  by (induction g) (auto simp: takeWhile_eq_Nil_iff)

lemma re_match_greedy:
  assumes "list_all (in_cls c) g" "min_rep q \<le> length g" "t = [] \<or> \<not> in_cls c (hd t)"
    "re_match p t = Some gs"
  shows "re_match ((a, c, q) # p) (g @ t) = Some ((a, g) # gs)"
proof -
  define f where "f = (\<lambda>k. case re_match p (drop k (g @ t)) of None \<Rightarrow> None
                                | Some gs \<Rightarrow> Some ((a, take k (g @ t)) # gs))"
  have hi: "length (takeWhile (in_cls c) (g @ t)) = length g"
    using takeWhile_run[OF assms(1) assms(3)] by simp
  have "f (length g) = Some ((a, g) # gs)" using assms(4) by (simp add: f_def)
  then have "f (min_rep q + (length g - min_rep q)) = Some ((a, g) # gs)"
    using assms(2) by simp
  then have bt: "backtrack (min_rep q) (length g - min_rep q) f = Some ((a, g) # gs)"
    by (rule backtrack_top)
  have "re_match ((a, c, q) # p) (g @ t) =
          (if length g < min_rep q then None
           else backtrack (min_rep q) (length g - min_rep q) f)"
    by (simp add: Let_def hi f_def)
  with bt assms(2) show ?thesis by simp
qed

lemma digit_char_digit: "is_digit (digit_char d)"
proof -
  have "d mod 10 < length ''0123456789''" by simp
  then have "''0123456789'' ! (d mod 10) \<in> set ''0123456789''" by (rule nth_mem)
  then show ?thesis unfolding digit_char_def is_digit_def .
qed

lemma str_nat_digits: "list_all is_digit (str_nat n) \<and> str_nat n \<noteq> []"
proof (induction n rule: str_nat.induct)
  case (1 n)
  show ?case
  proof (cases "n < 10")
    case True
    then show ?thesis by (simp add: str_nat.simps[of n] digit_char_digit)
  next
    case False
    with 1 show ?thesis by (simp add: str_nat.simps[of n] digit_char_digit)
  qed
qed

lemma str_int_digits: "0 \<le> i \<Longrightarrow> list_all is_digit (str_int i) \<and> str_int i \<noteq> []"
  using str_nat_digits[of "nat i"] by (simp add: str_int_def)

lemma digit_non_space: "is_digit c \<Longrightarrow> non_space c"
  by (auto simp: is_digit_def non_space_def is_space_def)

lemma space_not_digit: "is_space c \<Longrightarrow> \<not> is_digit c"
  using digit_non_space by (auto simp: non_space_def)

lemma dropWhile_snoc: "\<not> P c \<Longrightarrow> dropWhile P (xs @ [c]) = dropWhile P xs @ [c]"
  by (induction xs) auto

lemma strip_non_space_head:
  assumes "non_space c"
  shows "\<exists>r. strip (c # s) = c # r"
proof -
  have n: "\<not> is_space c" using assms by (simp add: non_space_def)
  then have "strip (c # s) = rev (dropWhile is_space (rev s @ [c]))"
    by (simp add: strip_def)
  also have "\<dots> = c # rev (dropWhile is_space (rev s))"
    by (simp only: dropWhile_snoc[of is_space c, OF n] rev_append rev.simps append_Nil append_Cons)
  finally show ?thesis by blast
qed

lemma match_field:
  assumes "well_formed_field x" "is_space c" "re_match p (c # t) = Some gs"
  shows "re_match ((a, NonSpace, q) # p) (x @ c # t) = Some ((a, x) # gs)"
proof (rule re_match_greedy)
  show "list_all (in_cls NonSpace) x" using assms(1) by (simp add: well_formed_field_def in_cls_eta)
  show "min_rep q \<le> length x" using assms(1) by (cases q; cases x) (simp_all add: well_formed_field_def)
  show "c # t = [] \<or> \<not> in_cls NonSpace (hd (c # t))" using assms(2) by (simp add: non_space_def)
  show "re_match p (c # t) = Some gs" by (rule assms(3))
qed

lemma match_digits:
  assumes "list_all is_digit x" "x \<noteq> []" "is_space c" "re_match p (c # t) = Some gs"
  shows "re_match ((a, Digit, Plus) # p) (x @ c # t) = Some ((a, x) # gs)"
proof (rule re_match_greedy)
  show "list_all (in_cls Digit) x" using assms(1) by (simp add: in_cls_eta)
  show "min_rep Plus \<le> length x" using assms(2) by (cases x) simp_all
  show "c # t = [] \<or> \<not> in_cls Digit (hd (c # t))" using assms(3) by (simp add: space_not_digit)
  show "re_match p (c # t) = Some gs" by (rule assms(4))
qed

lemma match_gap:
  assumes "x \<noteq> []" "non_space (hd x)" "re_match p (x @ t) = Some gs"
  shows "re_match ((a, Space, Plus) # p) (CHR '' '' # x @ t) = Some ((a, '' '') # gs)"
proof -
  have "re_match ((a, Space, Plus) # p) ('' '' @ (x @ t)) = Some ((a, '' '') # gs)"
  proof (rule re_match_greedy)
    show "list_all (in_cls Space) '' ''" by (simp add: is_space_def)
    show "min_rep Plus \<le> length '' ''" by simp
    show "x @ t = [] \<or> \<not> in_cls Space (hd (x @ t))"
      using assms(1,2) by (simp add: non_space_def)
    show "re_match p (x @ t) = Some gs" by (rule assms(3))
  qed
  then show ?thesis by simp
qed

lemma match_lead:
  assumes "x \<noteq> []" "non_space (hd x)" "re_match p (x @ t) = Some gs"
  shows "re_match ((a, Space, Star) # p) (x @ t) = Some ((a, []) # gs)"
proof -
  have "re_match ((a, Space, Star) # p) ([] @ (x @ t)) = Some ((a, []) # gs)"
  proof (rule re_match_greedy)
    show "list_all (in_cls Space) []" by simp
    show "min_rep Star \<le> length ([]::string)" by simp
    show "x @ t = [] \<or> \<not> in_cls Space (hd (x @ t))"
      using assms(1,2) by (simp add: non_space_def)
    show "re_match p (x @ t) = Some gs" by (rule assms(3))
  qed
  then show ?thesis by simp
qed

lemma match_trail: "re_match [(a, Space, Star)] [CHR 0x0A] = Some [(a, [CHR 0x0A])]"
proof -
  have "re_match ((a, Space, Star) # []) ([CHR 0x0A] @ []) = Some ((a, [CHR 0x0A]) # [])"
  proof (rule re_match_greedy)
    show "list_all (in_cls Space) [CHR 0x0A]" by (simp add: is_space_def)
    show "min_rep Star \<le> length [CHR 0x0A]" by simp
    show "([]::string) = [] \<or> \<not> in_cls Space (hd [])" by simp
    show "re_match [] [] = Some []" by (simp add: at_dollar_def)
  qed
  then show ?thesis by simp
qed

lemma well_formed_hd: "well_formed_field x \<Longrightarrow> x \<noteq> [] \<and> non_space (hd x)"
  by (cases x) (simp_all add: well_formed_field_def)

lemma digits_hd: "list_all is_digit x \<Longrightarrow> x \<noteq> [] \<Longrightarrow> non_space (hd x)"
  by (cases x) (simp_all add: digit_non_space)

lemma format_entry_re_match:
  assumes dev: "well_formed_field device"
    and dir: "well_formed_field directory" and ft: "well_formed_field fstype"
    and opt: "well_formed_field options" and d: "0 \<le> dump" and f: "0 \<le> fsck"
  shows "re_match pat (format_entry device directory fstype options dump fsck) =
     Some [(Ws1, []), (Device, device), (Ws2, '' ''), (Directory, directory), (Ws3, '' ''),
           (Fstype, fstype), (Ws4, '' ''), (Options, options), (Ws5, '' ''),
           (Dump, str_int dump), (Ws6, '' ''), (Fsck, str_int fsck), (Ws7, [CHR 0x0A])]"
proof -
  have sp: "is_space (CHR '' '')" "is_space (CHR 0x0A)" by (simp_all add: is_space_def)
  note dd = str_int_digits[OF d] and fd = str_int_digits[OF f]
  note m12 = match_trail[of Ws7]
  have m11: "re_match [(Fsck, Digit, Plus), (Ws7, Space, Star)] (str_int fsck @ [CHR 0x0A]) =
      Some [(Fsck, str_int fsck), (Ws7, [CHR 0x0A])]"
    using fd by (intro match_digits sp m12) simp_all
  have m10: "re_match [(Ws6, Space, Plus), (Fsck, Digit, Plus), (Ws7, Space, Star)]
       (CHR '' '' # str_int fsck @ [CHR 0x0A]) =
      Some [(Ws6, '' ''), (Fsck, str_int fsck), (Ws7, [CHR 0x0A])]"
    using fd digits_hd[of "str_int fsck"] by (intro match_gap m11) simp_all
  have m9: "re_match [(Dump, Digit, Plus), (Ws6, Space, Plus), (Fsck, Digit, Plus), (Ws7, Space, Star)]
       (str_int dump @ CHR '' '' # str_int fsck @ [CHR 0x0A]) =
      Some [(Dump, str_int dump), (Ws6, '' ''), (Fsck, str_int fsck), (Ws7, [CHR 0x0A])]"
    using dd by (intro match_digits sp m10) simp_all
  have m8: "re_match [(Ws5, Space, Plus), (Dump, Digit, Plus), (Ws6, Space, Plus),
         (Fsck, Digit, Plus), (Ws7, Space, Star)]
       (CHR '' '' # str_int dump @ CHR '' '' # str_int fsck @ [CHR 0x0A]) =
      Some [(Ws5, '' ''), (Dump, str_int dump), (Ws6, '' ''), (Fsck, str_int fsck),
            (Ws7, [CHR 0x0A])]"
    using dd digits_hd[of "str_int dump"] by (intro match_gap m9) simp_all
  note m7 = match_field[OF opt sp(1) m8, of Options Plus]
  note m6 = match_gap[OF conjunct1[OF well_formed_hd[OF opt]] conjunct2[OF well_formed_hd[OF opt]] m7, of Ws4]
  note m5 = match_field[OF ft sp(1) m6, of Fstype Plus]
  note m4 = match_gap[OF conjunct1[OF well_formed_hd[OF ft]] conjunct2[OF well_formed_hd[OF ft]] m5, of Ws3]
  note m3 = match_field[OF dir sp(1) m4, of Directory Plus]
  note m2 = match_gap[OF conjunct1[OF well_formed_hd[OF dir]] conjunct2[OF well_formed_hd[OF dir]] m3, of Ws2]
  note m1 = match_field[OF dev sp(1) m2, of Device Star]
  note m0 = match_lead[OF conjunct1[OF well_formed_hd[OF dev]] conjunct2[OF well_formed_hd[OF dev]] m1, of Ws1]
  have "format_entry device directory fstype options dump fsck =
        device @ CHR '' '' # directory @ CHR '' '' # fstype @ CHR '' '' # options @
        CHR '' '' # str_int dump @ CHR '' '' # str_int fsck @ [CHR 0x0A]"
    by (simp add: format_entry_def)
  with m0 show ?thesis by (simp only: pat_def)
qed

lemma format_entry_match:
  assumes dev: "well_formed_field device" and nh: "\<not> startswith_hash device"
    and dir: "well_formed_field directory" and ft: "well_formed_field fstype"
    and opt: "well_formed_field options" and d: "0 \<le> dump" and f: "0 \<le> fsck"
  shows "raw_match (format_entry device directory fstype options dump fsck) =
     Some [(Ws1, []), (Device, device), (Ws2, '' ''), (Directory, directory), (Ws3, '' ''),
           (Fstype, fstype), (Ws4, '' ''), (Options, options), (Ws5, '' ''),
           (Dump, str_int dump), (Ws6, '' ''), (Fsck, str_int fsck), (Ws7, [CHR 0x0A])]"
proof -
  obtain c cs where cs: "device = c # cs"
    using dev by (cases device) (simp_all add: well_formed_field_def)
  then have c: "non_space c" "c \<noteq> CHR ''#''" using dev nh
    by (simp_all add: well_formed_field_def startswith_hash_def)
  have "format_entry device directory fstype options dump fsck =
          c # (cs @ '' '' @ directory @ '' '' @ fstype @ '' '' @ options @ '' '' @
            str_int dump @ '' '' @ str_int fsck @ [CHR 0x0A])"
    by (simp add: format_entry_def cs)
  with strip_non_space_head[OF c(1)] obtain r where
    "strip (format_entry device directory fstype options dump fsck) = c # r"
    by metis
  with c(2) format_entry_re_match[OF dev dir ft opt d f] show ?thesis
    by (simp add: raw_match_def startswith_hash_def)
qed

lemma get_entry_loop_find:
  "list_all has_directory ls \<Longrightarrow> get_entry_loop d ls = Inr (find (mounted_at d) ls)"
proof (induction ls)
  case Nil
  then show ?case by simp
next
  case (Cons l ls)
  then obtain v where v: "getattr Directory l = Inr v"
    using getattr_has_directory[of l] by auto
  with Cons show ?case by (simp add: mounted_at_def)
qed

lemma find_None_list_ex: "(find P xs = None) = (\<not> list_ex P xs)"
  by (auto simp: find_None_iff list_ex_iff)

lemma add_entry_eq:
  assumes "list_all has_directory (lines t)"
  shows "add_entry device directory fstype options dump fsck t =
     Inr (t\<lparr>lines := skip_delete (mounted_at directory) (lines t) @
                 [Line (format_entry device directory fstype options dump fsck)]\<rparr>)"
proof (cases "list_ex (mounted_at directory) (lines t)")
  case True
  then have "find (mounted_at directory) (lines t) \<noteq> None"
    by (simp add: find_None_list_ex)
  moreover have "delete_entry directory t =
      Inr (t\<lparr>lines := skip_delete (mounted_at directory) (lines t)\<rparr>)"
    using delete_loop_eq[OF assms, of directory 0] by (simp add: delete_entry_def)
  ultimately show ?thesis
    using get_entry_loop_find[OF assms, of directory]
    by (simp add: add_entry_def get_entry_def)
next
  case False
  then have "find (mounted_at directory) (lines t) = None"
    by (simp add: find_None_list_ex)
  moreover from False have "skip_delete (mounted_at directory) (lines t) = lines t"
    by (rule skip_delete_none)
  ultimately show ?thesis
    using get_entry_loop_find[OF assms, of directory]
    by (simp add: add_entry_def get_entry_def)
qed

lemma Line_format_entry:
  assumes "well_formed_field device" "\<not> startswith_hash device"
    "well_formed_field directory" "well_formed_field fstype"
    "well_formed_field options" "0 \<le> dump" "0 \<le> fsck"
  shows "has_filesystem (Line (format_entry device directory fstype options dump fsck)) = Inr True"
    and "getattr Device (Line (format_entry device directory fstype options dump fsck)) = Inr (Some device)"
    and "getattr Directory (Line (format_entry device directory fstype options dump fsck)) = Inr (Some directory)"
    and "getattr Fstype (Line (format_entry device directory fstype options dump fsck)) = Inr (Some fstype)"
    and "get_options (Line (format_entry device directory fstype options dump fsck)) = Inr (split_comma options)"
    and "dict (Line (format_entry device directory fstype options dump fsck)) Dump = Some (Some (str_int dump))"
    and "dict (Line (format_entry device directory fstype options dump fsck)) Fsck = Some (Some (str_int fsck))"
    and "mounted_at d (Line (format_entry device directory fstype options dump fsck)) = (d = directory)"
  using format_entry_match[OF assms]
  by (auto simp: has_filesystem_Line getattr_Line get_options_def dict_Line mounted_at_Line)

text \<open>
  C5 (amended). On a table with at most one line mounted at \<open>directory\<close>, two
  calls of \<open>add_entry\<close> for \<open>directory\<close>, each with a non-empty whitespace-free
  device that is no comment, filesystem type and options and non-negative
  integers, succeed; after each call the table is the old lines not mounted at
  \<open>directory\<close> followed by the new line, the new line is the only one mounted at
  \<open>directory\<close>, and after the second call it is the filesystem line that renders
  as the second call's formatted text.
\<close>

theorem C5_add_entry_replaces:
  assumes "list_all has_directory (lines t)"
    and "length (filter (mounted_at directory) (lines t)) \<le> 1"
    and "well_formed_field directory"
    and "well_formed_field device1" "\<not> startswith_hash device1" "well_formed_field fstype1"
      "well_formed_field options1" "0 \<le> dump1" "0 \<le> fsck1"
    and "well_formed_field device2" "\<not> startswith_hash device2" "well_formed_field fstype2"
      "well_formed_field options2" "0 \<le> dump2" "0 \<le> fsck2"
  shows "\<exists>t1 t2.
     add_entry device1 directory fstype1 options1 dump1 fsck1 t = Inr t1 \<and>
     lines t1 = filter (\<lambda>l. \<not> mounted_at directory l) (lines t) @
                  [Line (format_entry device1 directory fstype1 options1 dump1 fsck1)] \<and>
     filter (mounted_at directory) (lines t1) =
       [Line (format_entry device1 directory fstype1 options1 dump1 fsck1)] \<and>
     add_entry device2 directory fstype2 options2 dump2 fsck2 t1 = Inr t2 \<and>
     lines t2 = filter (\<lambda>l. \<not> mounted_at directory l) (lines t) @
                  [Line (format_entry device2 directory fstype2 options2 dump2 fsck2)] \<and>
     filter (mounted_at directory) (lines t2) =
       [Line (format_entry device2 directory fstype2 options2 dump2 fsck2)] \<and>
     has_filesystem (Line (format_entry device2 directory fstype2 options2 dump2 fsck2)) = Inr True \<and>
     get_raw (Line (format_entry device2 directory fstype2 options2 dump2 fsck2)) =
       Inr (Some (format_entry device2 directory fstype2 options2 dump2 fsck2))"
proof -
  let ?P = "mounted_at directory"
  let ?n1 = "Line (format_entry device1 directory fstype1 options1 dump1 fsck1)"
  let ?n2 = "Line (format_entry device2 directory fstype2 options2 dump2 fsck2)"
  let ?keep = "filter (\<lambda>l. \<not> ?P l) (lines t)"
  let ?t1 = "t\<lparr>lines := ?keep @ [?n1]\<rparr>"
  let ?t2 = "?t1\<lparr>lines := ?keep @ [?n2]\<rparr>"
  have p1: "?P ?n1" using Line_format_entry(8)[OF assms(4,5,3,6,7,8,9)] by simp
  have p2: "?P ?n2" using Line_format_entry(8)[OF assms(10,11,3,12,13,14,15)] by simp
  have h2: "has_filesystem ?n2 = Inr True"
    by (rule Line_format_entry(1)[OF assms(10,11,3,12,13,14,15)])
  have a1: "add_entry device1 directory fstype1 options1 dump1 fsck1 t = Inr ?t1"
    using add_entry_eq[OF assms(1)] skip_delete_single[OF assms(2)] by simp
  have f1: "filter ?P (lines ?t1) = [?n1]" using p1 by simp
  have ok1: "list_all has_directory (lines ?t1)"
    using assms(1) by (auto simp: list_all_iff has_directory_Line)
  have one: "length (filter ?P (lines ?t1)) \<le> 1" unfolding f1 by simp
  have "skip_delete ?P (lines ?t1) = filter (\<lambda>l. \<not> ?P l) (lines ?t1)"
    by (rule skip_delete_single[OF one])
  also have "\<dots> = ?keep" using p1 by simp
  finally have sd: "skip_delete ?P (lines ?t1) = ?keep" .
  have a2: "add_entry device2 directory fstype2 options2 dump2 fsck2 ?t1 = Inr ?t2"
    using add_entry_eq[OF ok1, of device2 directory fstype2 options2 dump2 fsck2]
    unfolding sd by simp
  have f2: "filter ?P (lines ?t2) = [?n2]" using p2 by simp
  show ?thesis
    apply (rule exI[of _ ?t1])
    apply (rule exI[of _ ?t2])
    using a1 a2 f1 f2 h2 get_raw_Line[of "format_entry device2 directory fstype2 options2 dump2 fsck2"]
    apply (intro conjI)
    apply simp_all
    done
qed

lemma words_from_spaces:
  "list_all is_space w \<Longrightarrow> w \<noteq> [] \<Longrightarrow> words_from b (w @ s) = words_from False s"
  by (induction w arbitrary: b) (auto, (case_tac w; simp)+)

lemma words_from_spaces0:
  "list_all is_space w \<Longrightarrow> words_from False (w @ s) = words_from False s"
  by (induction w) auto

lemma words_from_field:
  "list_all non_space w \<Longrightarrow> w \<noteq> [] \<Longrightarrow>
     words_from b (w @ s) = (if b then 0 else 1) + words_from True s"
proof (induction w arbitrary: b)
  case Nil
  then show ?case by simp
next
  case (Cons c w)
  show ?case
  proof (cases w)
    case Nil
    with Cons.prems show ?thesis by (simp add: non_space_def)
  next
    case (Cons d w')
    with Cons.prems Cons.IH[of True] show ?thesis by (simp add: non_space_def)
  qed
qed

lemma words_from_sep:
  "is_space c \<Longrightarrow> words_from b (xs @ c # ys) = words_from b xs + words_from False ys"
  by (induction xs arbitrary: b) auto

lemma words_from_spaces_only: "list_all is_space w \<Longrightarrow> words_from b w = 0"
  by (induction w arbitrary: b) auto

lemma grammar_word_count:
  assumes "six_field_grammar raw"
  shows "word_count raw = 5 \<or> word_count raw = 6"
proof -
  from assms obtain w1 dev w2 mp w3 ft w4 opts w5 dmp w6 fck w7 where
    raw: "raw = w1 @ dev @ w2 @ mp @ w3 @ ft @ w4 @ opts @ w5 @ dmp @ w6 @ fck @ w7"
    and w: "list_all is_space w1" "list_all non_space dev"
      "list_all is_space w2" "w2 \<noteq> []" "list_all non_space mp" "mp \<noteq> []"
      "list_all is_space w3" "w3 \<noteq> []" "list_all non_space ft" "ft \<noteq> []"
      "list_all is_space w4" "w4 \<noteq> []" "list_all non_space opts" "opts \<noteq> []"
      "list_all is_space w5" "w5 \<noteq> []" "list_all is_digit dmp" "dmp \<noteq> []"
      "list_all is_space w6" "w6 \<noteq> []" "list_all is_digit fck" "fck \<noteq> []"
      "list_all is_space w7"
    unfolding six_field_grammar_def by blast
  have dg: "list_all non_space dmp" "list_all non_space fck"
    using w(17,21) digit_non_space by (auto simp: list_all_iff)
  have t7: "words_from True w7 = 0" by (rule words_from_spaces_only[OF w(23)])
  have t6: "words_from b (fck @ w7) = (if b then 0 else 1)" for b
    using words_from_field[OF dg(2) w(22), of b w7] t7 by simp
  have t5: "words_from b (w6 @ fck @ w7) = 1" for b
    using words_from_spaces[OF w(19,20), of b "fck @ w7"] t6[of False] by simp
  have t4: "words_from b (dmp @ w6 @ fck @ w7) = (if b then 0 else 1) + 1" for b
    using words_from_field[OF dg(1) w(18), of b "w6 @ fck @ w7"] t5[of True] by simp
  have t3: "words_from b (w5 @ dmp @ w6 @ fck @ w7) = 2" for b
    using words_from_spaces[OF w(15,16), of b "dmp @ w6 @ fck @ w7"] t4[of False] by simp
  have t2: "words_from b (opts @ w5 @ dmp @ w6 @ fck @ w7) = (if b then 0 else 1) + 2" for b
    using words_from_field[OF w(13,14), of b "w5 @ dmp @ w6 @ fck @ w7"] t3[of True] by simp
  have s4: "words_from b (w4 @ opts @ w5 @ dmp @ w6 @ fck @ w7) = 3" for b
    using words_from_spaces[OF w(11,12), of b "opts @ w5 @ dmp @ w6 @ fck @ w7"] t2[of False] by simp
  have s3: "words_from b (ft @ w4 @ opts @ w5 @ dmp @ w6 @ fck @ w7) = (if b then 0 else 1) + 3" for b
    using words_from_field[OF w(9,10), of b "w4 @ opts @ w5 @ dmp @ w6 @ fck @ w7"] s4[of True] by simp
  have s2: "words_from b (w3 @ ft @ w4 @ opts @ w5 @ dmp @ w6 @ fck @ w7) = 4" for b
    using words_from_spaces[OF w(7,8), of b "ft @ w4 @ opts @ w5 @ dmp @ w6 @ fck @ w7"] s3[of False] by simp
  have s1: "words_from b (mp @ w3 @ ft @ w4 @ opts @ w5 @ dmp @ w6 @ fck @ w7) = (if b then 0 else 1) + 4" for b
    using words_from_field[OF w(5,6), of b "w3 @ ft @ w4 @ opts @ w5 @ dmp @ w6 @ fck @ w7"] s2[of True] by simp
  have s0: "words_from b (w2 @ mp @ w3 @ ft @ w4 @ opts @ w5 @ dmp @ w6 @ fck @ w7) = 5" for b
    using words_from_spaces[OF w(3,4), of b "mp @ w3 @ ft @ w4 @ opts @ w5 @ dmp @ w6 @ fck @ w7"] s1[of False] by simp
  have d0: "words_from False (dev @ w2 @ mp @ w3 @ ft @ w4 @ opts @ w5 @ dmp @ w6 @ fck @ w7) =
            (if dev = [] then 5 else 6)"
  proof (cases "dev = []")
    case True
    then show ?thesis using s0[of False] by simp
  next
    case False
    from words_from_field[OF w(2) False, of False "w2 @ mp @ w3 @ ft @ w4 @ opts @ w5 @ dmp @ w6 @ fck @ w7"]
      s0[of True] False show ?thesis by simp
  qed
  have "word_count raw = (if dev = [] then 5 else 6)"
    unfolding word_count_def raw
    using words_from_spaces0[OF w(1), of "dev @ w2 @ mp @ w3 @ ft @ w4 @ opts @ w5 @ dmp @ w6 @ fck @ w7"] d0
    by simp
  then show ?thesis by auto
qed

lemma str_nat_non_space: "list_all non_space (str_nat n) \<and> str_nat n \<noteq> []"
  using str_nat_digits[of n] digit_non_space by (auto simp: list_all_iff)

lemma str_int_word: "list_all non_space (str_int i) \<and> str_int i \<noteq> []"
  using str_nat_non_space[of "nat i"] str_nat_non_space[of "nat (- i)"]
  by (auto simp: str_int_def non_space_def is_space_def)

lemma word_count_format_entry:
  "word_count (format_entry device directory fstype options dump fsck) =
     word_count device + word_count directory + word_count fstype + word_count options + 2"
proof -
  have sp: "is_space (CHR '' '')" "is_space (CHR 0x0A)" by (simp_all add: is_space_def)
  have nl: "words_from True [CHR 0x0A] = 0" using sp by simp
  have f: "words_from False (str_int fsck @ [CHR 0x0A]) = 1"
    using words_from_field[of "str_int fsck" False "[CHR 0x0A]"] str_int_word[of fsck] nl by simp
  have d: "words_from False (str_int dump) = 1"
    using words_from_field[of "str_int dump" False "[]"] str_int_word[of dump] by simp
  have "words_from False (device @ CHR '' '' # directory @ CHR '' '' # fstype @ CHR '' '' #
           options @ CHR '' '' # str_int dump @ CHR '' '' # str_int fsck @ [CHR 0x0A]) =
        words_from False device + words_from False directory + words_from False fstype +
        words_from False options + 2"
    by (simp add: words_from_sep[OF sp(1)] d f)
  then show ?thesis by (simp add: word_count_def format_entry_def)
qed

lemma format_entry_too_many_words:
  assumes "4 < word_count device + word_count directory + word_count fstype + word_count options"
  shows "has_filesystem (Line (format_entry device directory fstype options dump fsck)) = Inr False"
proof -
  have "\<not> six_field_grammar (format_entry device directory fstype options dump fsck)"
  proof
    assume "six_field_grammar (format_entry device directory fstype options dump fsck)"
    from grammar_word_count[OF this] assms show False
      by (simp add: word_count_format_entry)
  qed
  then show ?thesis using raw_match_iff[of "format_entry device directory fstype options dump fsck"]
    by (simp add: has_filesystem_Line)
qed

lemmas format_eval = format_entry_def str_int_def str_nat.simps digit_char_def

theorem C5_add_entry_replaces_witness:
  "list_all has_directory [Line (''/dev/sda1 / ext4 defaults 0 1'' @ [CHR 0x0A])] \<and>
   well_formed_field ''/cloudstor'' \<and> well_formed_field ''_netdev'' \<and>
   (\<exists>t1 t2.
      add_entry ''https://cloudstor.example/webdav/'' ''/cloudstor'' ''davfs'' ''_netdev'' 0 0
        \<lparr>fstab_file = ''/etc/fstab'',
         lines = [Line (''/dev/sda1 / ext4 defaults 0 1'' @ [CHR 0x0A])]\<rparr> = Inr t1 \<and>
      add_entry ''cloudstor'' ''/cloudstor'' ''davfs'' ''uid=ubuntu,_netdev'' 0 0 t1 = Inr t2 \<and>
      filter (mounted_at ''/cloudstor'') (lines t2) =
        [Line (format_entry ''cloudstor'' ''/cloudstor'' ''davfs'' ''uid=ubuntu,_netdev'' 0 0)] \<and>
      lines t2 = filter (\<lambda>l. \<not> mounted_at ''/cloudstor'' l)
                   [Line (''/dev/sda1 / ext4 defaults 0 1'' @ [CHR 0x0A])] @
                 [Line (format_entry ''cloudstor'' ''/cloudstor'' ''davfs'' ''uid=ubuntu,_netdev'' 0 0)])"
proof -
  let ?t = "\<lparr>fstab_file = ''/etc/fstab'',
             lines = [Line (''/dev/sda1 / ext4 defaults 0 1'' @ [CHR 0x0A])]\<rparr>"
  have h1: "list_all has_directory (lines ?t)" by (simp add: has_directory_Line)
  have h2: "length (filter (mounted_at ''/cloudstor'') (lines ?t)) \<le> 1" by simp
  have w: "well_formed_field ''/cloudstor''" "well_formed_field ''https://cloudstor.example/webdav/''"
    "well_formed_field ''davfs''" "well_formed_field ''_netdev''" "well_formed_field ''cloudstor''"
    "well_formed_field ''uid=ubuntu,_netdev''"
    by (simp_all add: well_formed_field_def non_space_def is_space_def)
  have n: "\<not> startswith_hash ''https://cloudstor.example/webdav/''" "\<not> startswith_hash ''cloudstor''"
    by (simp_all add: startswith_hash_def)
  have z: "(0::int) \<le> 0" by simp
  from C5_add_entry_replaces[OF h1 h2 w(1) w(2) n(1) w(3) w(4) z z w(5) n(2) w(3) w(6) z z]
  obtain t1 t2 where
    "add_entry ''https://cloudstor.example/webdav/'' ''/cloudstor'' ''davfs'' ''_netdev'' 0 0 ?t = Inr t1"
    "add_entry ''cloudstor'' ''/cloudstor'' ''davfs'' ''uid=ubuntu,_netdev'' 0 0 t1 = Inr t2"
    "filter (mounted_at ''/cloudstor'') (lines t2) =
        [Line (format_entry ''cloudstor'' ''/cloudstor'' ''davfs'' ''uid=ubuntu,_netdev'' 0 0)]"
    "lines t2 = filter (\<lambda>l. \<not> mounted_at ''/cloudstor'' l) (lines ?t) @
                 [Line (format_entry ''cloudstor'' ''/cloudstor'' ''davfs'' ''uid=ubuntu,_netdev'' 0 0)]"
    by blast
  then have "\<exists>t1 t2.
      add_entry ''https://cloudstor.example/webdav/'' ''/cloudstor'' ''davfs'' ''_netdev'' 0 0 ?t = Inr t1 \<and>
      add_entry ''cloudstor'' ''/cloudstor'' ''davfs'' ''uid=ubuntu,_netdev'' 0 0 t1 = Inr t2 \<and>
      filter (mounted_at ''/cloudstor'') (lines t2) =
        [Line (format_entry ''cloudstor'' ''/cloudstor'' ''davfs'' ''uid=ubuntu,_netdev'' 0 0)] \<and>
      lines t2 = filter (\<lambda>l. \<not> mounted_at ''/cloudstor'' l) (lines ?t) @
                 [Line (format_entry ''cloudstor'' ''/cloudstor'' ''davfs'' ''uid=ubuntu,_netdev'' 0 0)]"
    by blast
  with h1 w(1) w(4) show ?thesis by (simp del: filter.simps)
qed

text \<open>
  C5 as stated fails: with two adjacent entries for \<open>/mnt\<close> in the table, one of
  them survives \<open>add_entry\<close> beside the new one; and with a device that starts
  with \<open>#\<close>, two calls leave no filesystem line for the mount point at all.
\<close>

theorem C5_two_entries_or_none:
  "add_entry ''cloudstor'' ''/mnt'' ''davfs'' ''_netdev'' 0 0
     \<lparr>fstab_file = ''/etc/fstab'',
      lines = [Line (''/dev/sda1 /mnt ext4 defaults 0 1'' @ [CHR 0x0A]),
               Line (''/dev/sdb1 /mnt ext4 defaults 0 2'' @ [CHR 0x0A])]\<rparr> =
   Inr \<lparr>fstab_file = ''/etc/fstab'',
        lines = [Line (''/dev/sdb1 /mnt ext4 defaults 0 2'' @ [CHR 0x0A]),
                 Line (''cloudstor /mnt davfs _netdev 0 0'' @ [CHR 0x0A])]\<rparr> \<and>
   mounted_at ''/mnt'' (Line (''/dev/sdb1 /mnt ext4 defaults 0 2'' @ [CHR 0x0A])) \<and>
   mounted_at ''/mnt'' (Line (''cloudstor /mnt davfs _netdev 0 0'' @ [CHR 0x0A])) \<and>
   add_entry ''#cloudstor'' ''/mnt'' ''davfs'' ''_netdev'' 0 0
     \<lparr>fstab_file = ''/etc/fstab'', lines = []\<rparr> =
   Inr \<lparr>fstab_file = ''/etc/fstab'',
        lines = [Line (''#cloudstor /mnt davfs _netdev 0 0'' @ [CHR 0x0A])]\<rparr> \<and>
   add_entry ''#cloudstor'' ''/mnt'' ''davfs'' ''_netdev'' 0 0
     \<lparr>fstab_file = ''/etc/fstab'',
      lines = [Line (''#cloudstor /mnt davfs _netdev 0 0'' @ [CHR 0x0A])]\<rparr> =
   Inr \<lparr>fstab_file = ''/etc/fstab'',
        lines = [Line (''#cloudstor /mnt davfs _netdev 0 0'' @ [CHR 0x0A]),
                 Line (''#cloudstor /mnt davfs _netdev 0 0'' @ [CHR 0x0A])]\<rparr> \<and>
   has_filesystem (Line (''#cloudstor /mnt davfs _netdev 0 0'' @ [CHR 0x0A])) = Inr False"
proof -
  let ?A = "Line (''/dev/sda1 /mnt ext4 defaults 0 1'' @ [CHR 0x0A])"
  let ?B = "Line (''/dev/sdb1 /mnt ext4 defaults 0 2'' @ [CHR 0x0A])"
  let ?N = "Line (''cloudstor /mnt davfs _netdev 0 0'' @ [CHR 0x0A])"
  let ?H = "Line (''#cloudstor /mnt davfs _netdev 0 0'' @ [CHR 0x0A])"
  have fN: "format_entry ''cloudstor'' ''/mnt'' ''davfs'' ''_netdev'' 0 0 =
              ''cloudstor /mnt davfs _netdev 0 0'' @ [CHR 0x0A]"
    by (simp add: format_eval)
  have fH: "format_entry ''#cloudstor'' ''/mnt'' ''davfs'' ''_netdev'' 0 0 =
              ''#cloudstor /mnt davfs _netdev 0 0'' @ [CHR 0x0A]"
    by (simp add: format_eval)
  have a: "mounted_at ''/mnt'' ?A" by (simp add: line_eval)
  have b: "mounted_at ''/mnt'' ?B" by (simp add: line_eval)
  have n: "mounted_at ''/mnt'' ?N" by (simp add: line_eval)
  have h: "\<not> mounted_at ''/mnt'' ?H" by (simp add: line_eval)
  have hf: "has_filesystem ?H = Inr False" by (simp add: has_filesystem_Line raw_match_def eval_defs)
  have s1: "skip_delete (mounted_at ''/mnt'') [?A, ?B] = [?B]" using a by simp
  have s2: "skip_delete (mounted_at ''/mnt'') [?H] = [?H]" using h by simp
  have e1: "add_entry ''cloudstor'' ''/mnt'' ''davfs'' ''_netdev'' 0 0
              \<lparr>fstab_file = ''/etc/fstab'', lines = [?A, ?B]\<rparr> =
            Inr \<lparr>fstab_file = ''/etc/fstab'', lines = [?B, ?N]\<rparr>"
    using add_entry_eq[of "\<lparr>fstab_file = ''/etc/fstab'', lines = [?A, ?B]\<rparr>"
        "''cloudstor''" "''/mnt''" "''davfs''" "''_netdev''" 0 0] s1
    unfolding fN by (simp add: has_directory_Line del: skip_delete.simps)
  have e2: "add_entry ''#cloudstor'' ''/mnt'' ''davfs'' ''_netdev'' 0 0
              \<lparr>fstab_file = ''/etc/fstab'', lines = []\<rparr> =
            Inr \<lparr>fstab_file = ''/etc/fstab'', lines = [?H]\<rparr>"
    using add_entry_eq[of "\<lparr>fstab_file = ''/etc/fstab'', lines = []\<rparr>"
        "''#cloudstor''" "''/mnt''" "''davfs''" "''_netdev''" 0 0]
    unfolding fH by simp
  have e3: "add_entry ''#cloudstor'' ''/mnt'' ''davfs'' ''_netdev'' 0 0
              \<lparr>fstab_file = ''/etc/fstab'', lines = [?H]\<rparr> =
            Inr \<lparr>fstab_file = ''/etc/fstab'', lines = [?H, ?H]\<rparr>"
    using add_entry_eq[of "\<lparr>fstab_file = ''/etc/fstab'', lines = [?H]\<rparr>"
        "''#cloudstor''" "''/mnt''" "''davfs''" "''_netdev''" 0 0] s2
    unfolding fH by (simp add: has_directory_Line del: skip_delete.simps)
  from e1 b n e2 e3 hf show ?thesis by (intro conjI)
qed

text \<open>
  C10 (amended). \<open>add_entry\<close> appends \<open>Line\<close> of the six arguments formatted with
  single spaces and a newline. When device, directory, filesystem type and
  options are non-empty and whitespace-free, the device does not start with
  \<open>#\<close>, and the two integers are non-negative, the appended line is a
  filesystem line whose fields are the arguments. When the four strings
  consist of more than four whitespace-separated words together, the appended
  line has no filesystem specification. Whenever the appended line has none
  and the table held at most one line mounted at \<open>directory\<close>, \<open>get_entry\<close> then
  returns \<open>None\<close>.
\<close>

theorem C10_add_entry_reparses:
  assumes "list_all has_directory (lines t)"
  shows "\<exists>t1. add_entry device directory fstype options dump fsck t = Inr t1 \<and>
           lines t1 \<noteq> [] \<and>
           last (lines t1) = Line (format_entry device directory fstype options dump fsck) \<and>
           (well_formed_field device \<and> \<not> startswith_hash device \<and> well_formed_field directory \<and>
            well_formed_field fstype \<and> well_formed_field options \<and> 0 \<le> dump \<and> 0 \<le> fsck \<longrightarrow>
              has_filesystem (last (lines t1)) = Inr True \<and>
              getattr Device (last (lines t1)) = Inr (Some device) \<and>
              getattr Directory (last (lines t1)) = Inr (Some directory) \<and>
              getattr Fstype (last (lines t1)) = Inr (Some fstype) \<and>
              get_options (last (lines t1)) = Inr (split_comma options) \<and>
              dict (last (lines t1)) Dump = Some (Some (str_int dump)) \<and>
              dict (last (lines t1)) Fsck = Some (Some (str_int fsck))) \<and>
           (4 < word_count device + word_count directory + word_count fstype + word_count options \<longrightarrow>
              has_filesystem (last (lines t1)) = Inr False) \<and>
           (has_filesystem (last (lines t1)) = Inr False \<and>
            length (filter (mounted_at directory) (lines t)) \<le> 1 \<longrightarrow>
              get_entry directory t1 = Inr None)"
proof -
  let ?P = "mounted_at directory"
  let ?n = "Line (format_entry device directory fstype options dump fsck)"
  let ?t1 = "t\<lparr>lines := skip_delete ?P (lines t) @ [?n]\<rparr>"
  have a: "add_entry device directory fstype options dump fsck t = Inr ?t1"
    by (rule add_entry_eq[OF assms])
  have l: "lines ?t1 \<noteq> []" "last (lines ?t1) = ?n" by simp_all
  have wf: "well_formed_field device \<and> \<not> startswith_hash device \<and> well_formed_field directory \<and>
            well_formed_field fstype \<and> well_formed_field options \<and> 0 \<le> dump \<and> 0 \<le> fsck \<longrightarrow>
              has_filesystem ?n = Inr True \<and>
              getattr Device ?n = Inr (Some device) \<and>
              getattr Directory ?n = Inr (Some directory) \<and>
              getattr Fstype ?n = Inr (Some fstype) \<and>
              get_options ?n = Inr (split_comma options) \<and>
              dict ?n Dump = Some (Some (str_int dump)) \<and>
              dict ?n Fsck = Some (Some (str_int fsck))"
    using Line_format_entry(1-7)[of device directory fstype options dump fsck] by blast
  have many: "4 < word_count device + word_count directory + word_count fstype + word_count options \<longrightarrow>
              has_filesystem ?n = Inr False"
    using format_entry_too_many_words by blast
  have absent: "has_filesystem ?n = Inr False \<and> length (filter ?P (lines t)) \<le> 1 \<longrightarrow>
              get_entry directory ?t1 = Inr None"
  proof
    assume h: "has_filesystem ?n = Inr False \<and> length (filter ?P (lines t)) \<le> 1"
    then have sd: "skip_delete ?P (lines t) = filter (\<lambda>l. \<not> ?P l) (lines t)"
      using skip_delete_single by blast
    have np: "\<not> ?P ?n" using h Line_opaque_not_mounted by blast
    have ok: "list_all has_directory (lines ?t1)"
      using assms by (auto simp: sd list_all_iff has_directory_Line)
    have "\<not> list_ex ?P (lines ?t1)" using np by (auto simp: sd list_ex_iff)
    then have "find ?P (lines ?t1) = None"
      using find_None_list_ex[of ?P "lines ?t1"] by blast
    with get_entry_loop_find[OF ok, of directory] show "get_entry directory ?t1 = Inr None"
      by (simp add: get_entry_def)
  qed
  show ?thesis
    apply (rule exI[of _ ?t1])
    using a l wf many absent unfolding l(2) by (intro conjI)
qed

theorem C10_add_entry_reparses_witness:
  "(\<exists>t1. add_entry ''cloudstor'' ''/mnt'' ''davfs'' ''_netdev'' 0 0
           \<lparr>fstab_file = ''/etc/fstab'',
            lines = [Line (''/dev/sda1 / ext4 defaults 0 1'' @ [CHR 0x0A])]\<rparr> = Inr t1 \<and>
         has_filesystem (last (lines t1)) = Inr True \<and>
         getattr Directory (last (lines t1)) = Inr (Some ''/mnt'')) \<and>
   (\<exists>t1. add_entry ''cloudstor'' ''/mnt'' ''davfs'' ''rw user'' 0 0
           \<lparr>fstab_file = ''/etc/fstab'',
            lines = [Line (''/dev/sda1 / ext4 defaults 0 1'' @ [CHR 0x0A])]\<rparr> = Inr t1 \<and>
         has_filesystem (last (lines t1)) = Inr False \<and>
         get_entry ''/mnt'' t1 = Inr None)"
proof -
  let ?t = "\<lparr>fstab_file = ''/etc/fstab'',
             lines = [Line (''/dev/sda1 / ext4 defaults 0 1'' @ [CHR 0x0A])]\<rparr>"
  have h1: "list_all has_directory (lines ?t)" by (simp add: has_directory_Line)
  have h2: "length (filter (mounted_at ''/mnt'') (lines ?t)) \<le> 1" by simp
  have w: "well_formed_field ''cloudstor''" "well_formed_field ''/mnt''"
    "well_formed_field ''davfs''" "well_formed_field ''_netdev''"
    by (simp_all add: well_formed_field_def non_space_def is_space_def)
  have n: "\<not> startswith_hash ''cloudstor''" by (simp add: startswith_hash_def)
  have c: "4 < word_count ''cloudstor'' + word_count ''/mnt'' + word_count ''davfs'' +
               word_count ''rw user''"
    by (simp add: word_count_def is_space_def)
  have z: "(0::int) \<le> 0" by simp
  from C10_add_entry_reparses[OF h1, of "''cloudstor''" "''/mnt''" "''davfs''" "''_netdev''" 0 0]
    w n z
  have first: "\<exists>t1. add_entry ''cloudstor'' ''/mnt'' ''davfs'' ''_netdev'' 0 0 ?t = Inr t1 \<and>
         has_filesystem (last (lines t1)) = Inr True \<and>
         getattr Directory (last (lines t1)) = Inr (Some ''/mnt'')"
    by blast
  from C10_add_entry_reparses[OF h1, of "''cloudstor''" "''/mnt''" "''davfs''" "''rw user''" 0 0]
    c h2
  have second: "\<exists>t1. add_entry ''cloudstor'' ''/mnt'' ''davfs'' ''rw user'' 0 0 ?t = Inr t1 \<and>
         has_filesystem (last (lines t1)) = Inr False \<and>
         get_entry ''/mnt'' t1 = Inr None"
    by blast
  from first second show ?thesis by (rule conjI)
qed

text \<open>
  C10 as stated fails: a whitespace-free device that starts with \<open>#\<close> gives a
  line without filesystem specification, and a device with a leading space
  gives a filesystem line, which \<open>get_entry\<close> finds.
\<close>

theorem C10_hash_device_and_leading_space:
  "well_formed_field ''#cloudstor'' \<and>
   add_entry ''#cloudstor'' ''/mnt'' ''davfs'' ''_netdev'' 0 0
     \<lparr>fstab_file = ''/etc/fstab'', lines = []\<rparr> =
   Inr \<lparr>fstab_file = ''/etc/fstab'',
        lines = [Line (''#cloudstor /mnt davfs _netdev 0 0'' @ [CHR 0x0A])]\<rparr> \<and>
   has_filesystem (Line (''#cloudstor /mnt davfs _netdev 0 0'' @ [CHR 0x0A])) = Inr False \<and>
   list_ex is_space '' cloudstor'' \<and>
   add_entry '' cloudstor'' ''/mnt'' ''davfs'' ''_netdev'' 0 0
     \<lparr>fstab_file = ''/etc/fstab'', lines = []\<rparr> =
   Inr \<lparr>fstab_file = ''/etc/fstab'',
        lines = [Line ('' cloudstor /mnt davfs _netdev 0 0'' @ [CHR 0x0A])]\<rparr> \<and>
   has_filesystem (Line ('' cloudstor /mnt davfs _netdev 0 0'' @ [CHR 0x0A])) = Inr True \<and>
   get_entry ''/mnt''
     \<lparr>fstab_file = ''/etc/fstab'',
      lines = [Line ('' cloudstor /mnt davfs _netdev 0 0'' @ [CHR 0x0A])]\<rparr> =
   Inr (Some (Line ('' cloudstor /mnt davfs _netdev 0 0'' @ [CHR 0x0A])))"
proof -
  let ?H = "Line (''#cloudstor /mnt davfs _netdev 0 0'' @ [CHR 0x0A])"
  let ?S = "Line ('' cloudstor /mnt davfs _netdev 0 0'' @ [CHR 0x0A])"
  have fH: "format_entry ''#cloudstor'' ''/mnt'' ''davfs'' ''_netdev'' 0 0 =
              ''#cloudstor /mnt davfs _netdev 0 0'' @ [CHR 0x0A]"
    by (simp add: format_eval)
  have fS: "format_entry '' cloudstor'' ''/mnt'' ''davfs'' ''_netdev'' 0 0 =
              '' cloudstor /mnt davfs _netdev 0 0'' @ [CHR 0x0A]"
    by (simp add: format_eval)
  have w: "well_formed_field ''#cloudstor''"
    by (simp add: well_formed_field_def non_space_def is_space_def)
  have sp: "list_ex is_space '' cloudstor''" by (simp add: is_space_def)
  have hH: "has_filesystem ?H = Inr False" by (simp add: has_filesystem_Line raw_match_def eval_defs)
  have hS: "has_filesystem ?S = Inr True" by (simp add: has_filesystem_Line raw_match_def eval_defs)
  have mS: "mounted_at ''/mnt'' ?S" by (simp add: line_eval)
  have e1: "add_entry ''#cloudstor'' ''/mnt'' ''davfs'' ''_netdev'' 0 0
              \<lparr>fstab_file = ''/etc/fstab'', lines = []\<rparr> =
            Inr \<lparr>fstab_file = ''/etc/fstab'', lines = [?H]\<rparr>"
    using add_entry_eq[of "\<lparr>fstab_file = ''/etc/fstab'', lines = []\<rparr>"
        "''#cloudstor''" "''/mnt''" "''davfs''" "''_netdev''" 0 0]
    unfolding fH by simp
  have e2: "add_entry '' cloudstor'' ''/mnt'' ''davfs'' ''_netdev'' 0 0
              \<lparr>fstab_file = ''/etc/fstab'', lines = []\<rparr> =
            Inr \<lparr>fstab_file = ''/etc/fstab'', lines = [?S]\<rparr>"
    using add_entry_eq[of "\<lparr>fstab_file = ''/etc/fstab'', lines = []\<rparr>"
        "'' cloudstor''" "''/mnt''" "''davfs''" "''_netdev''" 0 0]
    unfolding fS by simp
  have g: "get_entry ''/mnt'' \<lparr>fstab_file = ''/etc/fstab'', lines = [?S]\<rparr> = Inr (Some ?S)"
    using get_entry_loop_find[of "[?S]" "''/mnt''"] mS
    by (simp add: get_entry_def has_directory_Line del: get_entry_loop.simps)
  from w e1 hH sp e2 hS g show ?thesis by (intro conjI)
qed

section \<open>\<open>Fstab.write\<close>\<close>

lemma bind_Inr:
  "bind m f fs = (Inr y, fs') \<Longrightarrow> \<exists>x fs1. m fs = (Inr x, fs1) \<and> f x fs1 = (Inr y, fs')"
  by (auto simp: bind_def split: prod.splits sum.splits)

lemma sys_cases:
  "sys E c m fs = (r, fs') \<Longrightarrow> (r = Inl (OSError c) \<and> fs' = fs \<and> faults E c) \<or> (m fs = (r, fs') \<and> \<not> faults E c)"
  by (auto simp: sys_def raise_def split: if_splits)

lemma lookup_update: "lookup (fs\<lparr>names := AList.update p i (names fs)\<rparr>) q = (if q = p then Some i else lookup fs q)"
  by (simp add: lookup_def update_conv')

lemma lookup_delete: "lookup (fs\<lparr>names := AList.delete p (names fs)\<rparr>) q = (if q = p then None else lookup fs q)"
  by (simp add: lookup_def delete_conv')

lemma lookup_inodes_upd [simp]: "lookup (fs\<lparr>inodes := f\<rparr>) q = lookup fs q"
  by (simp add: lookup_def)

lemma fold_max_ge: "a \<le> fold max xs (a::nat)"
  by (induction xs arbitrary: a) (auto intro: order_trans[OF max.cobounded2])

lemma fold_max_mem: "x \<in> set xs \<Longrightarrow> x \<le> fold max xs (a::nat)"
proof (induction xs arbitrary: a)
  case Nil
  then show ?case by simp
next
  case (Cons y ys)
  show ?case
  proof (cases "x = y")
    case True
    have "y \<le> max y a" by simp
    also have "\<dots> \<le> fold max ys (max y a)" by (rule fold_max_ge)
    finally show ?thesis using True by simp
  next
    case False
    with Cons show ?thesis by simp
  qed
qed

lemma lookup_lt_fresh: "lookup fs p = Some i \<Longrightarrow> i < fresh_ino fs"
proof -
  assume "lookup fs p = Some i"
  then have "(p, i) \<in> set (names fs)" unfolding lookup_def by (rule map_of_SomeD)
  then have "i \<in> set (map snd (names fs))" by force
  from fold_max_mem[OF this, of 0] show ?thesis by (simp add: fresh_ino_def)
qed

subsection \<open>Path names\<close>

lemma basename_slash_free:
  "list_all (\<lambda>c. \<not> is_slash c) x \<Longrightarrow> basename (p @ x) = basename p @ x"
proof -
  assume a: "list_all (\<lambda>c. \<not> is_slash c) x"
  have "takeWhile (\<lambda>c. \<not> is_slash c) (rev x @ rev p) = rev x @ takeWhile (\<lambda>c. \<not> is_slash c) (rev p)"
    using a by (intro takeWhile_append2) (simp add: list_all_iff)
  then show ?thesis by (simp add: basename_def)
qed

lemma basename_no_slash: "list_all (\<lambda>c. \<not> is_slash c) (basename p)"
  unfolding basename_def list_all_iff using set_takeWhileD by fastforce

lemma basename_after_slash:
  "a = [] \<or> is_slash (last a) \<Longrightarrow> list_all (\<lambda>c. \<not> is_slash c) b \<Longrightarrow> basename (a @ b) = b"
proof -
  assume a: "a = [] \<or> is_slash (last a)" and b: "list_all (\<lambda>c. \<not> is_slash c) b"
  have "basename a = []"
  proof (cases a rule: rev_cases)
    case Nil
    then show ?thesis by (simp add: basename_def)
  next
    case (snoc ys y)
    with a show ?thesis by (simp add: basename_def)
  qed
  with basename_slash_free[OF b, of a] show ?thesis by simp
qed

lemma basename_path_join:
  assumes "list_all (\<lambda>c. \<not> is_slash c) b"
  shows "basename (path_join a b) = b"
proof -
  have nb: "\<not> (b \<noteq> [] \<and> is_slash (hd b))" using assms by (cases b) simp_all
  show ?thesis
  proof (cases "a = [] \<or> is_slash (last a)")
    case True
    then have "path_join a b = a @ b" using nb by (auto simp: path_join_def)
    with basename_after_slash[OF True assms] show ?thesis by simp
  next
    case False
    then have pj: "path_join a b = (a @ ''/'') @ b" using nb by (auto simp: path_join_def)
    have "basename ((a @ ''/'') @ b) = b"
      by (rule basename_after_slash[OF _ assms]) (simp add: is_slash_def)
    with pj show ?thesis by simp
  qed
qed

lemma temp_name_distinct:
  assumes "candidate_ok r"
  shows "path_join (dirname fn) ((basename fn @ ''.'') @ r) \<noteq> fn"
    and "path_join (dirname fn) ((basename fn @ ''.'') @ r) \<noteq> fn @ ''.bak''"
proof -
  let ?b = "(basename fn @ ''.'') @ r"
  have sf: "list_all (\<lambda>c. \<not> is_slash c) ?b"
    using assms basename_no_slash[of fn] by (simp add: candidate_ok_def is_slash_def)
  have bt: "basename (path_join (dirname fn) ?b) = ?b" by (rule basename_path_join[OF sf])
  have "?b \<noteq> basename fn" by simp
  with bt show "path_join (dirname fn) ?b \<noteq> fn" by metis
  have "basename (fn @ ''.bak'') = basename fn @ ''.bak''"
    by (rule basename_slash_free) (simp add: is_slash_def)
  moreover have "?b \<noteq> basename fn @ ''.bak''" using assms by (simp add: candidate_ok_def)
  ultimately show "path_join (dirname fn) ?b \<noteq> fn @ ''.bak''" using bt by metis
qed

lemma temp_file_props:
  assumes "list_all candidate_ok (rnds E)" "temp_file E fn fs = Some tmp"
  shows "lookup fs tmp = None" "tmp \<noteq> fn" "tmp \<noteq> fn @ ''.bak''"
proof -
  from assms(2) have f: "lookup fs tmp = None"
    and m: "tmp \<in> set (map (\<lambda>r. path_join (dirname fn) ((basename fn @ ''.'') @ r)) (rnds E))"
    unfolding temp_file_def by (auto simp: find_Some_iff)
  show "lookup fs tmp = None" by (rule f)
  from m obtain r where r: "r \<in> set (rnds E)" "tmp = path_join (dirname fn) ((basename fn @ ''.'') @ r)"
    by auto
  from r(1) assms(1) have "candidate_ok r" by (simp add: list_all_iff)
  from temp_name_distinct[OF this, of fn] r(2) show "tmp \<noteq> fn" "tmp \<noteq> fn @ ''.bak''" by simp_all
qed

lemma mkstemp_result:
  "mkstemp E (dirname fn) (basename fn @ ''.'') fs = (r, fs1) \<Longrightarrow>
     (\<exists>e. r = Inl e \<and> fs1 = fs \<and> (faults E SysMkstemp \<or> temp_file E fn fs = None)) \<or>
     (\<exists>tmp. r = Inr tmp \<and> \<not> faults E SysMkstemp \<and> temp_file E fn fs = Some tmp \<and>
        fs1 = fs\<lparr>names := AList.update tmp (fresh_ino fs) (names fs),
                 inodes := (inodes fs)(fresh_ino fs := \<lparr>content = [], mode = S_IFREG OR 0x180\<rparr>)\<rparr>)"
  unfolding mkstemp_def by (drule sys_cases) (auto simp: temp_file_def split: option.splits)

lemma os_close_result: "os_close E fs = (r, fs') \<Longrightarrow> fs' = fs"
  unfolding os_close_def by (drule sys_cases) (auto simp: return_def)

lemma f_close_result: "f_close E fs = (r, fs') \<Longrightarrow> fs' = fs"
  unfolding f_close_def by (drule sys_cases) (auto simp: return_def)

lemma same_but_content_refl: "same_but_content i fs fs"
  by (simp add: same_but_content_def)

lemma same_but_content_trans:
  "same_but_content i fs fs1 \<Longrightarrow> same_but_content i fs1 fs2 \<Longrightarrow> same_but_content i fs fs2"
  by (simp add: same_but_content_def)

lemma f_write_result:
  "f_write E k i s fs = (r, fs') \<Longrightarrow>
     same_but_content i fs fs' \<and>
     (r = Inr () \<longrightarrow> content (inodes fs' i) = content (inodes fs i) @ s)"
  unfolding f_write_def by (drule sys_cases) (auto simp: same_but_content_def)

lemma write_lines_result:
  "write_lines E k i ls fs = (r, fs') \<Longrightarrow>
     same_but_content i fs fs' \<and>
     (r = Inr () \<longrightarrow> (\<exists>data. render_table ls = Some data \<and>
                         content (inodes fs' i) = content (inodes fs i) @ data))"
proof (induction ls arbitrary: k fs)
  case Nil
  then show ?case by (simp add: return_def same_but_content_refl)
next
  case (Cons l ls)
  show ?case
  proof (cases "get_raw l")
    case (Inl e)
    with Cons.prems show ?thesis by (auto simp: raise_def same_but_content_refl)
  next
    case (Inr v)
    show ?thesis
    proof (cases v)
      case None
      with Inr Cons.prems show ?thesis by (auto simp: raise_def same_but_content_refl)
    next
      case (Some s)
      with Inr Cons.prems have b: "bind (f_write E k i s) (\<lambda>_. write_lines E (Suc k) i ls) fs = (r, fs')"
        by simp
      obtain r1 fs1 where w: "f_write E k i s fs = (r1, fs1)" by (cases "f_write E k i s fs")
      note w1 = f_write_result[OF w]
      show ?thesis
      proof (cases r1)
        case (Inl e)
        with b w have "r = Inl e" "fs' = fs1" by (simp_all add: bind_def)
        with w1 show ?thesis by simp
      next
        case (Inr u)
        with b w have rest: "write_lines E (Suc k) i ls fs1 = (r, fs')" by (simp add: bind_def)
        note ih = Cons.IH[OF rest]
        from w1 ih have sb: "same_but_content i fs fs'"
          using same_but_content_trans by blast
        from w1 Inr have c1: "content (inodes fs1 i) = content (inodes fs i) @ s" by simp
        show ?thesis
        proof (cases "r = Inr ()")
          case True
          with ih obtain data where "render_table ls = Some data"
            "content (inodes fs' i) = content (inodes fs1 i) @ data" by blast
          with c1 \<open>get_raw l = Inr v\<close> Some sb show ?thesis by simp
        next
          case False
          with sb show ?thesis by simp
        qed
      qed
    qed
  qed
qed

lemma open_w_existing:
  "lookup fs name = Some i \<Longrightarrow> open_w E name fs = (r, fs1) \<Longrightarrow>
     same_but_content i fs fs1 \<and> (r = Inr i \<and> content (inodes fs1 i) = [] \<or> (\<exists>e. r = Inl e))"
  unfolding open_w_def by (drule sys_cases) (auto simp: same_but_content_def)

lemma write_temp_result:
  assumes "lookup fs tmp = Some i" "write_temp E tmp ls fs = (r, fs')"
  shows "same_but_content i fs fs' \<and>
         (r = Inr () \<longrightarrow> (\<exists>data. render_table ls = Some data \<and> content (inodes fs' i) = data))"
proof -
  obtain r1 fs1 where o: "open_w E tmp fs = (r1, fs1)" by (cases "open_w E tmp fs")
  note o1 = open_w_existing[OF assms(1) o]
  show ?thesis
  proof (cases r1)
    case (Inl e)
    with assms(2) o have "fs' = fs1" "r = Inl e" by (simp_all add: write_temp_def bind_def)
    with o1 show ?thesis by simp
  next
    case (Inr f)
    with o1 have f: "f = i" "content (inodes fs1 i) = []" by auto
    obtain r2 fs2 where w: "write_lines E 0 i ls fs1 = (r2, fs2)" by (cases "write_lines E 0 i ls fs1")
    note w1 = write_lines_result[OF w]
    obtain r3 fs3 where c: "f_close E fs2 = (r3, fs3)" by (cases "f_close E fs2")
    from f_close_result[OF c] have fs3: "fs3 = fs2" .
    from o1 w1 have sb: "same_but_content i fs fs2" using same_but_content_trans by blast
    show ?thesis
    proof (cases r2)
      case (Inl e)
      with assms(2) o Inr f w c fs3 have "fs' = fs2" "r \<noteq> Inr ()"
        by (auto simp: write_temp_def bind_def split: sum.splits)
      with sb show ?thesis by simp
    next
      case ok: (Inr u)
      with assms(2) o Inr f w c fs3 have "fs' = fs2" "r = r3"
        by (auto simp: write_temp_def bind_def split: sum.splits)
      moreover from w1 ok f(2) have "\<exists>data. render_table ls = Some data \<and> content (inodes fs2 i) = data"
        by simp
      ultimately show ?thesis using sb by simp
    qed
  qed
qed

lemma get_perms_result:
  "get_perms E fn fs = (r, fs') \<Longrightarrow>
     fs' = fs \<and> (\<forall>m. r = Inr m \<longrightarrow> (\<exists>i. lookup fs fn = Some i \<and> m = mode (inodes fs i)))"
  unfolding get_perms_def by (drule sys_cases) (auto split: option.splits)

lemma chmod_file_result:
  "chmod_file E name m fs = (r, fs') \<Longrightarrow>
     names fs' = names fs \<and>
     ((\<exists>e. r = Inl e) \<and> fs' = fs \<or>
      (\<exists>i. r = Inr () \<and> lookup fs name = Some i \<and>
           inodes fs' = (inodes fs)(i := (inodes fs i)
              \<lparr>mode := (mode (inodes fs i) AND NOT perm_mask) OR (m AND perm_mask)\<rparr>)))"
  unfolding chmod_file_def by (drule sys_cases) (auto split: option.splits)

lemma os_remove_result:
  "os_remove E name fs = (r, fs') \<Longrightarrow>
     inodes fs' = inodes fs \<and> (\<forall>p. p \<noteq> name \<longrightarrow> lookup fs' p = lookup fs p) \<and>
     (r = Inr () \<longrightarrow> lookup fs' name = None)"
  unfolding os_remove_def by (drule sys_cases) (auto simp: lookup_delete split: option.splits)

lemma os_link_result:
  "os_link E old new fs = (r, fs') \<Longrightarrow>
     inodes fs' = inodes fs \<and> (\<forall>p. p \<noteq> new \<longrightarrow> lookup fs' p = lookup fs p) \<and>
     (r = Inr () \<longrightarrow> lookup fs old \<noteq> None \<and> lookup fs' new = lookup fs old)"
  unfolding os_link_def by (drule sys_cases) (auto simp: lookup_update split: option.splits)

lemma link_file_result:
  assumes "link_file E old new fs = (r, fs')" "old \<noteq> new"
  shows "inodes fs' = inodes fs \<and> (\<forall>p. p \<noteq> new \<longrightarrow> lookup fs' p = lookup fs p) \<and>
         (r = Inr () \<longrightarrow> lookup fs old \<noteq> None \<and> lookup fs' new = lookup fs old)"
proof -
  obtain r1 fs1 where rm: "(if lookup fs new \<noteq> None then os_remove E new else return ()) fs = (r1, fs1)"
    by (cases "(if lookup fs new \<noteq> None then os_remove E new else return ()) fs")
  have f1: "inodes fs1 = inodes fs \<and> (\<forall>p. p \<noteq> new \<longrightarrow> lookup fs1 p = lookup fs p)"
    using rm os_remove_result[of E new fs r1 fs1] by (auto simp: return_def split: if_splits)
  show ?thesis
  proof (cases r1)
    case (Inl e)
    with assms(1) rm have "fs' = fs1" "r = Inl e"
      by (simp_all add: link_file_def bind_def os_path_exists_def)
    with f1 show ?thesis by simp
  next
    case (Inr u)
    with assms(1) rm have "os_link E old new fs1 = (r, fs')"
      by (simp add: link_file_def bind_def os_path_exists_def)
    from os_link_result[OF this] f1 assms(2) show ?thesis by simp
  qed
qed

lemma rename_file_result:
  "rename_file E old new fs = (r, fs') \<Longrightarrow>
     ((\<exists>e. r = Inl e) \<and> fs' = fs) \<or>
     (r = Inr () \<and> inodes fs' = inodes fs \<and>
      (\<exists>i. lookup fs old = Some i \<and>
         (lookup fs new = Some i \<and> fs' = fs \<or>
          lookup fs new \<noteq> Some i \<and>
          (\<forall>p. lookup fs' p = (if p = new then Some i else if p = old then None else lookup fs p)))))"
  unfolding rename_file_def
  by (drule sys_cases) (auto simp: lookup_def update_conv' delete_conv' split: option.splits if_splits)

lemma kept_same_but_content:
  "kept fs fn tmp s \<Longrightarrow> same_but_content (fresh_ino fs) s s' \<Longrightarrow> kept fs fn tmp s'"
  by (simp add: kept_def same_but_content_def lookup_def)

lemma kept_write_temp:
  assumes "kept fs fn tmp s" "write_temp E tmp ls s = (r, s')"
  shows "kept fs fn tmp s'"
proof -
  from assms(1) have l: "lookup s tmp = Some (fresh_ino fs)" by (simp add: kept_def)
  from write_temp_result[OF l assms(2)] have "same_but_content (fresh_ino fs) s s'"
    by (rule conjunct1)
  with assms(1) show ?thesis by (rule kept_same_but_content)
qed

lemma kept_chmod:
  assumes "kept fs fn tmp s" "chmod_file E tmp m s = (r, s')"
  shows "kept fs fn tmp s'"
proof -
  from assms(1) have l: "lookup s tmp = Some (fresh_ino fs)" by (simp add: kept_def)
  from chmod_file_result[OF assms(2)] have n: "names s' = names s"
    and c: "s' = s \<or> (\<exists>i. lookup s tmp = Some i \<and>
           inodes s' = (inodes s)(i := (inodes s i)
              \<lparr>mode := (mode (inodes s i) AND NOT perm_mask) OR (m AND perm_mask)\<rparr>))"
    by blast+
  from c show ?thesis
  proof
    assume "s' = s"
    with assms(1) show ?thesis by simp
  next
    assume "\<exists>i. lookup s tmp = Some i \<and>
           inodes s' = (inodes s)(i := (inodes s i)
              \<lparr>mode := (mode (inodes s i) AND NOT perm_mask) OR (m AND perm_mask)\<rparr>)"
    with l have "\<forall>j. j \<noteq> fresh_ino fs \<longrightarrow> inodes s' j = inodes s j" by auto
    with assms(1) n show ?thesis by (simp add: kept_def lookup_def)
  qed
qed

lemma kept_link_file:
  assumes "kept fs fn tmp s" "link_file E fn (fn @ ''.bak'') s = (r, s')" "tmp \<noteq> fn @ ''.bak''"
  shows "kept fs fn tmp s'"
proof -
  have "fn \<noteq> fn @ ''.bak''" by simp
  from link_file_result[OF assms(2) this]
  have i: "inodes s' = inodes s" and l: "\<forall>p. p \<noteq> fn @ ''.bak'' \<longrightarrow> lookup s' p = lookup s p"
    by blast+
  from l assms(3) have "lookup s' tmp = lookup s tmp" by blast
  moreover from l have "lookup s' fn = lookup s fn" by simp
  ultimately show ?thesis using assms(1) i by (simp add: kept_def)
qed

lemma kept_conclusions:
  assumes "kept fs fn tmp s"
  shows "lookup s fn = lookup fs fn" "read_file s fn = read_file fs fn"
    "perm_bits s fn = perm_bits fs fn" "lookup s tmp \<noteq> None"
proof -
  show l: "lookup s fn = lookup fs fn" and "lookup s tmp \<noteq> None"
    using assms by (simp_all add: kept_def)
  have "\<And>i. lookup fs fn = Some i \<Longrightarrow> inodes s i = inodes fs i"
    using assms lookup_lt_fresh[of fs fn] by (auto simp: kept_def)
  then show "read_file s fn = read_file fs fn" "perm_bits s fn = perm_bits fs fn"
    unfolding read_file_def perm_bits_def l by (cases "lookup fs fn"; simp)+
qed

lemma mkstemp_kept:
  assumes "list_all candidate_ok (rnds E)"
    "mkstemp E (dirname fn) (basename fn @ ''.'') fs = (Inr tmp, fs1)"
  shows "temp_file E fn fs = Some tmp" "kept fs fn tmp fs1"
    "content (inodes fs1 (fresh_ino fs)) = []"
proof -
  from mkstemp_result[OF assms(2)] have t: "temp_file E fn fs = Some tmp"
    and fs1: "fs1 = fs\<lparr>names := AList.update tmp (fresh_ino fs) (names fs),
                 inodes := (inodes fs)(fresh_ino fs := \<lparr>content = [], mode = S_IFREG OR 0x180\<rparr>)\<rparr>"
    by auto
  show "temp_file E fn fs = Some tmp" by (rule t)
  from temp_file_props[OF assms(1) t] have "tmp \<noteq> fn" by simp
  then show "kept fs fn tmp fs1" unfolding fs1 kept_def
    by (simp add: lookup_def update_conv')
  show "content (inodes fs1 (fresh_ino fs)) = []" unfolding fs1 by simp
qed

text \<open>
  C7 (amended). When \<open>Fstab.write\<close> raises, the exception reaches the caller and
  the target path names the same inode as before, with the same content and
  the same permission bits. Either \<open>mkstemp\<close> itself failed and the file system
  is unchanged, or the temporary file that \<open>mkstemp\<close> created is still there: it
  is not removed.
\<close>

theorem C7_failed_write:
  assumes "list_all candidate_ok (rnds E)"
    and "Fstab_write E fn_arg self fs = (Inl e, fs')"
  shows "lookup fs' (write_target fn_arg self) = lookup fs (write_target fn_arg self) \<and>
         read_file fs' (write_target fn_arg self) = read_file fs (write_target fn_arg self) \<and>
         perm_bits fs' (write_target fn_arg self) = perm_bits fs (write_target fn_arg self) \<and>
         (fs' = fs \<and> (faults E SysMkstemp \<or> temp_file E (write_target fn_arg self) fs = None) \<or>
          (\<exists>tmp. temp_file E (write_target fn_arg self) fs = Some tmp \<and>
                 lookup fs tmp = None \<and> lookup fs' tmp \<noteq> None))"
proof -
  define fn where "fn = write_target fn_arg self"
  define step3 where "step3 = (\<lambda>tempname.
         bind (get_perms E fn) (\<lambda>perms.
         bind (chmod_file E tempname perms) (\<lambda>_.
         bind (link_file E fn (fn @ ''.bak'')) (\<lambda>_.
         rename_file E tempname fn))))"
  have W: "bind (mkstemp E (dirname fn) (basename fn @ ''.'')) (\<lambda>tempname.
         bind (os_close E) (\<lambda>_.
         bind (write_temp E tempname (lines self)) (\<lambda>_. step3 tempname))) fs = (Inl e, fs')"
    using assms(2) by (simp add: Fstab_write_def Let_def fn_def step3_def)
  obtain r1 fs1 where m: "mkstemp E (dirname fn) (basename fn @ ''.'') fs = (r1, fs1)"
    by (cases "mkstemp E (dirname fn) (basename fn @ ''.'') fs")
  show ?thesis
  proof (cases r1)
    case (Inl e1)
    with W m have "fs' = fs1" by (simp add: bind_def)
    with mkstemp_result[OF m] Inl show ?thesis unfolding fn_def[symmetric] by auto
  next
    case (Inr tmp)
    note mk = mkstemp_kept[OF assms(1) m[unfolded Inr]]
    note tp = temp_file_props[OF assms(1) mk(1)]
    from W m Inr have W2: "bind (os_close E) (\<lambda>_.
         bind (write_temp E tmp (lines self)) (\<lambda>_. step3 tmp)) fs1 = (Inl e, fs')"
      by (simp add: bind_def)
    obtain r2 fs2 where c: "os_close E fs1 = (r2, fs2)" by (cases "os_close E fs1")
    from os_close_result[OF c] mk(2) have k2: "kept fs fn tmp fs2" by simp
    have "kept fs fn tmp fs'"
    proof (cases r2)
      case (Inl e2)
      with W2 c have "fs' = fs2" by (simp add: bind_def)
      with k2 show ?thesis by simp
    next
      case (Inr u2)
      with W2 c have W3: "bind (write_temp E tmp (lines self)) (\<lambda>_. step3 tmp) fs2 = (Inl e, fs')"
        by (simp add: bind_def)
      obtain r3 fs3 where w: "write_temp E tmp (lines self) fs2 = (r3, fs3)"
        by (cases "write_temp E tmp (lines self) fs2")
      from kept_write_temp[OF k2 w] have k3: "kept fs fn tmp fs3" .
      show ?thesis
      proof (cases r3)
        case (Inl e3)
        with W3 w have "fs' = fs3" by (simp add: bind_def)
        with k3 show ?thesis by simp
      next
        case (Inr u3)
        with W3 w have W4: "bind (get_perms E fn) (\<lambda>perms.
             bind (chmod_file E tmp perms) (\<lambda>_.
             bind (link_file E fn (fn @ ''.bak'')) (\<lambda>_.
             rename_file E tmp fn))) fs3 = (Inl e, fs')"
          by (simp add: bind_def step3_def)
        obtain r4 fs4 where g: "get_perms E fn fs3 = (r4, fs4)" by (cases "get_perms E fn fs3")
        from get_perms_result[OF g] k3 have k4: "kept fs fn tmp fs4" by simp
        show ?thesis
        proof (cases r4)
          case (Inl e4)
          with W4 g have "fs' = fs4" by (simp add: bind_def)
          with k4 show ?thesis by simp
        next
          case (Inr perms)
          with W4 g have W5: "bind (chmod_file E tmp perms) (\<lambda>_.
             bind (link_file E fn (fn @ ''.bak'')) (\<lambda>_.
             rename_file E tmp fn)) fs4 = (Inl e, fs')"
            by (simp add: bind_def)
          obtain r5 fs5 where ch: "chmod_file E tmp perms fs4 = (r5, fs5)"
            by (cases "chmod_file E tmp perms fs4")
          from kept_chmod[OF k4 ch] have k5: "kept fs fn tmp fs5" .
          show ?thesis
          proof (cases r5)
            case (Inl e5)
            with W5 ch have "fs' = fs5" by (simp add: bind_def)
            with k5 show ?thesis by simp
          next
            case (Inr u5)
            with W5 ch have W6: "bind (link_file E fn (fn @ ''.bak'')) (\<lambda>_.
               rename_file E tmp fn) fs5 = (Inl e, fs')"
              by (simp add: bind_def)
            obtain r6 fs6 where lk: "link_file E fn (fn @ ''.bak'') fs5 = (r6, fs6)"
              by (cases "link_file E fn (fn @ ''.bak'') fs5")
            from kept_link_file[OF k5 lk tp(3)] have k6: "kept fs fn tmp fs6" .
            show ?thesis
            proof (cases r6)
              case (Inl e6)
              with W6 lk have "fs' = fs6" by (simp add: bind_def)
              with k6 show ?thesis by simp
            next
              case (Inr u6)
              with W6 lk have "rename_file E tmp fn fs6 = (Inl e, fs')"
                by (simp add: bind_def)
              from rename_file_result[OF this] have "fs' = fs6" by auto
              with k6 show ?thesis by simp
            qed
          qed
        qed
      qed
    qed
    from kept_conclusions[OF this] mk(1) tp(1) show ?thesis
      unfolding fn_def[symmetric] by blast
  qed
qed

lemma perm_bits_replaced:
  "((a AND NOT perm_mask) OR (m AND perm_mask)) AND perm_mask = m AND (perm_mask :: 32 word)"
  by (rule bit_eqI) (auto simp: bit_and_iff bit_or_iff bit_not_iff)

text \<open>
  C6. When \<open>Fstab.write\<close> returns normally, every line of the table rendered and
  the target file holds the concatenation of the renderings in order; the
  target existed before, and \<open>.bak\<close> beside it is a second name of the inode the
  target named before, so it holds the content from before the write; and the
  permission bits of the target are those it had before.
\<close>

theorem C6_successful_write:
  assumes "list_all candidate_ok (rnds E)"
    and "Fstab_write E fn_arg self fs = (Inr (), fs')"
  shows "\<exists>data old.
           render_table (lines self) = Some data \<and>
           read_file fs (write_target fn_arg self) = Some old \<and>
           read_file fs' (write_target fn_arg self) = Some data \<and>
           read_file fs' (write_target fn_arg self @ ''.bak'') = Some old \<and>
           lookup fs' (write_target fn_arg self @ ''.bak'') = lookup fs (write_target fn_arg self) \<and>
           perm_bits fs' (write_target fn_arg self) = perm_bits fs (write_target fn_arg self)"
proof -
  define fn where "fn = write_target fn_arg self"
  define n where "n = fresh_ino fs"
  have W: "bind (mkstemp E (dirname fn) (basename fn @ ''.'')) (\<lambda>tempname.
         bind (os_close E) (\<lambda>_.
         bind (write_temp E tempname (lines self)) (\<lambda>_.
         bind (get_perms E fn) (\<lambda>perms.
         bind (chmod_file E tempname perms) (\<lambda>_.
         bind (link_file E fn (fn @ ''.bak'')) (\<lambda>_.
         rename_file E tempname fn)))))) fs = (Inr (), fs')"
    using assms(2) by (simp add: Fstab_write_def Let_def fn_def)
  from bind_Inr[OF W] obtain tmp fs1 where
    m: "mkstemp E (dirname fn) (basename fn @ ''.'') fs = (Inr tmp, fs1)"
    and W2: "bind (os_close E) (\<lambda>_.
         bind (write_temp E tmp (lines self)) (\<lambda>_.
         bind (get_perms E fn) (\<lambda>perms.
         bind (chmod_file E tmp perms) (\<lambda>_.
         bind (link_file E fn (fn @ ''.bak'')) (\<lambda>_.
         rename_file E tmp fn))))) fs1 = (Inr (), fs')"
    by blast
  note mk = mkstemp_kept[OF assms(1) m]
  note tp = temp_file_props[OF assms(1) mk(1)]
  from bind_Inr[OF W2] obtain u2 fs2 where
    c: "os_close E fs1 = (Inr u2, fs2)"
    and W3: "bind (write_temp E tmp (lines self)) (\<lambda>_.
         bind (get_perms E fn) (\<lambda>perms.
         bind (chmod_file E tmp perms) (\<lambda>_.
         bind (link_file E fn (fn @ ''.bak'')) (\<lambda>_.
         rename_file E tmp fn)))) fs2 = (Inr (), fs')"
    by blast
  from os_close_result[OF c] mk(2) have k2: "kept fs fn tmp fs2" by simp
  from bind_Inr[OF W3] obtain u3 fs3 where
    w: "write_temp E tmp (lines self) fs2 = (Inr u3, fs3)"
    and W4: "bind (get_perms E fn) (\<lambda>perms.
         bind (chmod_file E tmp perms) (\<lambda>_.
         bind (link_file E fn (fn @ ''.bak'')) (\<lambda>_.
         rename_file E tmp fn))) fs3 = (Inr (), fs')"
    by blast
  from k2 have l2: "lookup fs2 tmp = Some n" by (simp add: kept_def n_def)
  from write_temp_result[OF l2 w] obtain data where
    data: "render_table (lines self) = Some data" "content (inodes fs3 n) = data"
    by auto
  from kept_write_temp[OF k2 w] have k3: "kept fs fn tmp fs3" .
  from bind_Inr[OF W4] obtain perms fs4 where
    g: "get_perms E fn fs3 = (Inr perms, fs4)"
    and W5: "bind (chmod_file E tmp perms) (\<lambda>_.
         bind (link_file E fn (fn @ ''.bak'')) (\<lambda>_.
         rename_file E tmp fn)) fs4 = (Inr (), fs')"
    by blast
  from get_perms_result[OF g] obtain i where
    fs4: "fs4 = fs3" and i3: "lookup fs3 fn = Some i" and p: "perms = mode (inodes fs3 i)"
    by auto
  from k3 i3 have i: "lookup fs fn = Some i" by (simp add: kept_def)
  from lookup_lt_fresh[OF i] have ni: "i \<noteq> n" by (simp add: n_def)
  from k3 ni have i3': "inodes fs3 i = inodes fs i" by (simp add: kept_def n_def)
  from bind_Inr[OF W5] obtain u5 fs5 where
    ch: "chmod_file E tmp perms fs3 = (Inr u5, fs5)"
    and W6: "bind (link_file E fn (fn @ ''.bak'')) (\<lambda>_. rename_file E tmp fn) fs5 = (Inr (), fs')"
    unfolding fs4 by blast
  from kept_chmod[OF k3 ch] have k5: "kept fs fn tmp fs5" .
  from k3 have l3: "lookup fs3 tmp = Some n" by (simp add: kept_def n_def)
  from chmod_file_result[OF ch] l3 have
    in5: "inodes fs5 = (inodes fs3)(n := (inodes fs3 n)
              \<lparr>mode := (mode (inodes fs3 n) AND NOT perm_mask) OR (perms AND perm_mask)\<rparr>)"
    by auto
  from bind_Inr[OF W6] obtain u6 fs6 where
    lk: "link_file E fn (fn @ ''.bak'') fs5 = (Inr u6, fs6)"
    and rn: "rename_file E tmp fn fs6 = (Inr (), fs')"
    by blast
  have "fn \<noteq> fn @ ''.bak''" by simp
  from link_file_result[OF lk this]
  have in6: "inodes fs6 = inodes fs5"
    and l6: "\<forall>p. p \<noteq> fn @ ''.bak'' \<longrightarrow> lookup fs6 p = lookup fs5 p"
    and b6: "lookup fs6 (fn @ ''.bak'') = lookup fs5 fn"
    by auto
  from kept_link_file[OF k5 lk tp(3)] have k6: "kept fs fn tmp fs6" .
  then have t6: "lookup fs6 tmp = Some n" and f6: "lookup fs6 fn = Some i"
    using i by (simp_all add: kept_def n_def)
  from k5 i have b6': "lookup fs6 (fn @ ''.bak'') = Some i" using b6 by (simp add: kept_def)
  from rename_file_result[OF rn] t6 f6 ni have
    in': "inodes fs' = inodes fs6"
    and l': "\<forall>p. lookup fs' p = (if p = fn then Some n else if p = tmp then None else lookup fs6 p)"
    by auto
  have lf: "lookup fs' fn = Some n" using l' by simp
  have lb: "lookup fs' (fn @ ''.bak'') = Some i" using l' tp(3) b6' by simp
  have cn: "content (inodes fs' n) = data" using in' in6 in5 data(2) by simp
  have mn: "mode (inodes fs' n) AND perm_mask = mode (inodes fs i) AND perm_mask"
    using in' in6 in5 p i3' by (simp add: perm_bits_replaced)
  have ci: "inodes fs' i = inodes fs i" using in' in6 in5 ni i3' by simp
  have "render_table (lines self) = Some data" by (rule data(1))
  moreover have "read_file fs fn = Some (content (inodes fs i))" using i by (simp add: read_file_def)
  moreover have "read_file fs' fn = Some data" using lf cn by (simp add: read_file_def)
  moreover have "read_file fs' (fn @ ''.bak'') = Some (content (inodes fs i))"
    using lb ci by (simp add: read_file_def)
  moreover have "lookup fs' (fn @ ''.bak'') = lookup fs fn" using lb i by simp
  moreover have "perm_bits fs' fn = perm_bits fs fn" using lf i mn by (simp add: perm_bits_def)
  ultimately show ?thesis unfolding fn_def by blast
qed

lemmas io_eval = Fstab_write_def write_target_def Let_def bind_def return_def raise_def sys_def
  mkstemp_def os_close_def write_temp_def open_w_def f_write_def f_close_def get_perms_def
  chmod_file_def link_file_def os_path_exists_def os_remove_def os_link_def rename_file_def
  lookup_def fresh_ino_def dirname_def basename_def path_join_def is_slash_def

theorem C6_successful_write_witness:
  "list_all candidate_ok [''abcdefgh''] \<and>
   fst (Fstab_write \<lparr>rnds = [''abcdefgh''], umask = 0x12, faults = (\<lambda>c. False)\<rparr> None
       \<lparr>fstab_file = ''/etc/fstab'',
        lines = [Line (''# static file system information'' @ [CHR 0x0A]),
                 Line (''/dev/sda1 / ext4 defaults 0 1'' @ [CHR 0x0A])]\<rparr>
       \<lparr>names = [(''/etc/fstab'', 0)],
        inodes = (\<lambda>i. \<lparr>content = ''proc /proc proc defaults 0 0'' @ [CHR 0x0A], mode = 0x81A4\<rparr>)\<rparr>) = Inr () \<and>
   read_file (snd (Fstab_write \<lparr>rnds = [''abcdefgh''], umask = 0x12, faults = (\<lambda>c. False)\<rparr> None
       \<lparr>fstab_file = ''/etc/fstab'',
        lines = [Line (''# static file system information'' @ [CHR 0x0A]),
                 Line (''/dev/sda1 / ext4 defaults 0 1'' @ [CHR 0x0A])]\<rparr>
       \<lparr>names = [(''/etc/fstab'', 0)],
        inodes = (\<lambda>i. \<lparr>content = ''proc /proc proc defaults 0 0'' @ [CHR 0x0A], mode = 0x81A4\<rparr>)\<rparr>)) ''/etc/fstab'' =
     Some (''# static file system information'' @ [CHR 0x0A] @
           ''/dev/sda1 / ext4 defaults 0 1'' @ [CHR 0x0A]) \<and>
   read_file (snd (Fstab_write \<lparr>rnds = [''abcdefgh''], umask = 0x12, faults = (\<lambda>c. False)\<rparr> None
       \<lparr>fstab_file = ''/etc/fstab'',
        lines = [Line (''# static file system information'' @ [CHR 0x0A]),
                 Line (''/dev/sda1 / ext4 defaults 0 1'' @ [CHR 0x0A])]\<rparr>
       \<lparr>names = [(''/etc/fstab'', 0)],
        inodes = (\<lambda>i. \<lparr>content = ''proc /proc proc defaults 0 0'' @ [CHR 0x0A], mode = 0x81A4\<rparr>)\<rparr>)) ''/etc/fstab.bak'' = Some (''proc /proc proc defaults 0 0'' @ [CHR 0x0A]) \<and>
   perm_bits (snd (Fstab_write \<lparr>rnds = [''abcdefgh''], umask = 0x12, faults = (\<lambda>c. False)\<rparr> None
       \<lparr>fstab_file = ''/etc/fstab'',
        lines = [Line (''# static file system information'' @ [CHR 0x0A]),
                 Line (''/dev/sda1 / ext4 defaults 0 1'' @ [CHR 0x0A])]\<rparr>
       \<lparr>names = [(''/etc/fstab'', 0)],
        inodes = (\<lambda>i. \<lparr>content = ''proc /proc proc defaults 0 0'' @ [CHR 0x0A], mode = 0x81A4\<rparr>)\<rparr>)) ''/etc/fstab'' = Some 0x1A4"
proof -
  let ?E = "\<lparr>rnds = [''abcdefgh''], umask = 0x12, faults = (\<lambda>c. False)\<rparr>"
  let ?t = "\<lparr>fstab_file = ''/etc/fstab'',
        lines = [Line (''# static file system information'' @ [CHR 0x0A]),
                 Line (''/dev/sda1 / ext4 defaults 0 1'' @ [CHR 0x0A])]\<rparr>"
  let ?fs = "\<lparr>names = [(''/etc/fstab'', 0)],
        inodes = (\<lambda>i. \<lparr>content = ''proc /proc proc defaults 0 0'' @ [CHR 0x0A], mode = 0x81A4\<rparr>)\<rparr>"
  have c: "list_all candidate_ok (rnds ?E)" by (simp add: candidate_ok_def is_slash_def)
  have f: "fst (Fstab_write ?E None ?t ?fs) = Inr ()" by (simp add: io_eval get_raw_Line)
  then have w: "Fstab_write ?E None ?t ?fs = (Inr (), snd (Fstab_write ?E None ?t ?fs))"
    by (cases "Fstab_write ?E None ?t ?fs") simp
  have tgt: "write_target None ?t = ''/etc/fstab''" by (simp add: write_target_def)
  have r: "render_table (lines ?t) =
      Some (''# static file system information'' @ [CHR 0x0A] @
            ''/dev/sda1 / ext4 defaults 0 1'' @ [CHR 0x0A])"
    by (simp add: get_raw_Line)
  have o: "read_file ?fs ''/etc/fstab'' = Some (''proc /proc proc defaults 0 0'' @ [CHR 0x0A])"
    by (simp add: read_file_def lookup_def)
  have p: "perm_bits ?fs ''/etc/fstab'' = Some 0x1A4"
    by (simp add: perm_bits_def lookup_def perm_mask_def)
  from C6_successful_write[OF c w] obtain data old where
    h: "render_table (lines ?t) = Some data" "read_file ?fs ''/etc/fstab'' = Some old"
      "read_file (snd (Fstab_write ?E None ?t ?fs)) ''/etc/fstab'' = Some data"
      "read_file (snd (Fstab_write ?E None ?t ?fs)) (''/etc/fstab'' @ ''.bak'') = Some old"
      "perm_bits (snd (Fstab_write ?E None ?t ?fs)) ''/etc/fstab'' = perm_bits ?fs ''/etc/fstab''"
    unfolding tgt by blast
  from h(1) r have d: "data = ''# static file system information'' @ [CHR 0x0A] @
            ''/dev/sda1 / ext4 defaults 0 1'' @ [CHR 0x0A]" by simp
  from h(2) o have od: "old = ''proc /proc proc defaults 0 0'' @ [CHR 0x0A]" by simp
  have c': "list_all candidate_ok [''abcdefgh'']" using c by simp
  from c' f h(3) h(4) h(5) p show ?thesis unfolding d od by simp
qed

theorem C7_failed_write_witness:
  "fst (Fstab_write \<lparr>rnds = [''abcdefgh''], umask = 0x12, faults = (\<lambda>c. c = SysLink)\<rparr> None
       \<lparr>fstab_file = ''/etc/fstab'',
        lines = [Line (''# static file system information'' @ [CHR 0x0A]),
                 Line (''/dev/sda1 / ext4 defaults 0 1'' @ [CHR 0x0A])]\<rparr>
       \<lparr>names = [(''/etc/fstab'', 0)],
        inodes = (\<lambda>i. \<lparr>content = ''proc /proc proc defaults 0 0'' @ [CHR 0x0A], mode = 0x81A4\<rparr>)\<rparr>) = Inl (OSError SysLink) \<and>
   read_file (snd (Fstab_write \<lparr>rnds = [''abcdefgh''], umask = 0x12, faults = (\<lambda>c. c = SysLink)\<rparr> None
       \<lparr>fstab_file = ''/etc/fstab'',
        lines = [Line (''# static file system information'' @ [CHR 0x0A]),
                 Line (''/dev/sda1 / ext4 defaults 0 1'' @ [CHR 0x0A])]\<rparr>
       \<lparr>names = [(''/etc/fstab'', 0)],
        inodes = (\<lambda>i. \<lparr>content = ''proc /proc proc defaults 0 0'' @ [CHR 0x0A], mode = 0x81A4\<rparr>)\<rparr>)) ''/etc/fstab'' = Some (''proc /proc proc defaults 0 0'' @ [CHR 0x0A]) \<and>
   perm_bits (snd (Fstab_write \<lparr>rnds = [''abcdefgh''], umask = 0x12, faults = (\<lambda>c. c = SysLink)\<rparr> None
       \<lparr>fstab_file = ''/etc/fstab'',
        lines = [Line (''# static file system information'' @ [CHR 0x0A]),
                 Line (''/dev/sda1 / ext4 defaults 0 1'' @ [CHR 0x0A])]\<rparr>
       \<lparr>names = [(''/etc/fstab'', 0)],
        inodes = (\<lambda>i. \<lparr>content = ''proc /proc proc defaults 0 0'' @ [CHR 0x0A], mode = 0x81A4\<rparr>)\<rparr>)) ''/etc/fstab'' = Some 0x1A4"
proof -
  let ?E = "\<lparr>rnds = [''abcdefgh''], umask = 0x12, faults = (\<lambda>c. c = SysLink)\<rparr>"
  let ?t = "\<lparr>fstab_file = ''/etc/fstab'',
        lines = [Line (''# static file system information'' @ [CHR 0x0A]),
                 Line (''/dev/sda1 / ext4 defaults 0 1'' @ [CHR 0x0A])]\<rparr>"
  let ?fs = "\<lparr>names = [(''/etc/fstab'', 0)],
        inodes = (\<lambda>i. \<lparr>content = ''proc /proc proc defaults 0 0'' @ [CHR 0x0A], mode = 0x81A4\<rparr>)\<rparr>"
  have c: "list_all candidate_ok (rnds ?E)" by (simp add: candidate_ok_def is_slash_def)
  have f: "fst (Fstab_write ?E None ?t ?fs) = Inl (OSError SysLink)"
    by (simp add: io_eval get_raw_Line)
  then have w: "Fstab_write ?E None ?t ?fs =
      (Inl (OSError SysLink), snd (Fstab_write ?E None ?t ?fs))"
    by (cases "Fstab_write ?E None ?t ?fs") simp
  have tgt: "write_target None ?t = ''/etc/fstab''" by (simp add: write_target_def)
  have o: "read_file ?fs ''/etc/fstab'' = Some (''proc /proc proc defaults 0 0'' @ [CHR 0x0A])"
    by (simp add: read_file_def lookup_def)
  have p: "perm_bits ?fs ''/etc/fstab'' = Some 0x1A4"
    by (simp add: perm_bits_def lookup_def perm_mask_def)
  from C7_failed_write[OF c w]
  have h: "read_file (snd (Fstab_write ?E None ?t ?fs)) ''/etc/fstab'' = read_file ?fs ''/etc/fstab''"
    "perm_bits (snd (Fstab_write ?E None ?t ?fs)) ''/etc/fstab'' = perm_bits ?fs ''/etc/fstab''"
    unfolding tgt by blast+
  from f h o p show ?thesis by simp
qed

text \<open>
  C7 as stated fails: when the hard link for the backup is refused, the write
  raises and the temporary file stays in the directory.
\<close>

theorem C7_temporary_file_left_behind:
  "fst (Fstab_write \<lparr>rnds = [''abcdefgh''], umask = 0x12, faults = (\<lambda>c. c = SysLink)\<rparr> None
       \<lparr>fstab_file = ''/etc/fstab'',
        lines = [Line (''# static file system information'' @ [CHR 0x0A]),
                 Line (''/dev/sda1 / ext4 defaults 0 1'' @ [CHR 0x0A])]\<rparr>
       \<lparr>names = [(''/etc/fstab'', 0)],
        inodes = (\<lambda>i. \<lparr>content = ''proc /proc proc defaults 0 0'' @ [CHR 0x0A], mode = 0x81A4\<rparr>)\<rparr>) = Inl (OSError SysLink) \<and>
   lookup \<lparr>names = [(''/etc/fstab'', 0)],
        inodes = (\<lambda>i. \<lparr>content = ''proc /proc proc defaults 0 0'' @ [CHR 0x0A], mode = 0x81A4\<rparr>)\<rparr> ''/etc/fstab.abcdefgh'' = None \<and>
   lookup (snd (Fstab_write \<lparr>rnds = [''abcdefgh''], umask = 0x12, faults = (\<lambda>c. c = SysLink)\<rparr> None
       \<lparr>fstab_file = ''/etc/fstab'',
        lines = [Line (''# static file system information'' @ [CHR 0x0A]),
                 Line (''/dev/sda1 / ext4 defaults 0 1'' @ [CHR 0x0A])]\<rparr>
       \<lparr>names = [(''/etc/fstab'', 0)],
        inodes = (\<lambda>i. \<lparr>content = ''proc /proc proc defaults 0 0'' @ [CHR 0x0A], mode = 0x81A4\<rparr>)\<rparr>)) ''/etc/fstab.abcdefgh'' = Some 1"
  by (simp add: io_eval get_raw_Line)

end
